theory Spec2Isabelle
  imports Complex_Main
begin

section \<open>SpeedFrogger: the gameplay objects of js/app.js\<close>

text \<open>
  JavaScript numbers are IEEE 754 doubles. The collision test can turn on the last bit of a
  sum, so the arithmetic of \<open>getCollisionDims\<close> and \<open>isCollision\<close> is rounded to the nearest
  double (\<open>double\<close> below). The remaining arithmetic is exact: pixel positions, speeds and
  time deltas are \<^typ>\<open>real\<close>, and the grid coordinates of the player, the score and the
  game clock, which only ever hold small integers, are \<^typ>\<open>int\<close>.
  A call of \<^verbatim>\<open>Math.random()\<close> reads the next value of a random source
  \<open>rnd :: nat \<Rightarrow> real\<close>, whose values lie in \<open>[0, 1)\<close>. Drawing on the canvas
  (the \<^verbatim>\<open>render\<close> methods and the sprite names) and the \<^verbatim>\<open>console.log\<close> calls change
  no game state and are left out.
\<close>

subsection \<open>The arithmetic of JavaScript numbers\<close>

text \<open>
  The result of \<^verbatim>\<open>+\<close>, \<^verbatim>\<open>-\<close> and \<^verbatim>\<open>/\<close> on two doubles is the exact result rounded to
  the nearest double, ties going to the even significand. A double is an integer
  multiple \<open>m * 2 ^ k\<close> with \<open>\<bar>m\<bar> < 2 ^ 53\<close> and \<open>- 1074 \<le> k \<le> 971\<close>.
  \<open>exponent n a\<close> is the binary exponent of \<open>a > 0\<close>, the \<open>e\<close> with
  \<open>2 ^ e \<le> a < 2 ^ (e + 1)\<close>, found by halving or doubling at most \<open>n\<close> times;
  \<open>ulpExponent r\<close> is the exponent \<open>k\<close> of the spacing of the doubles around \<open>r\<close>, with the
  subnormal range below \<open>2 ^ - 1022\<close> and the largest binade treated as IEEE 754 does.
  Results of magnitude \<open>2 ^ 1024\<close> and more, which JavaScript turns into \<open>Infinity\<close>, and
  \<open>NaN\<close> are outside the model: \<open>double\<close> keeps rounding large results with the spacing
  of the largest binade.
\<close>

definition pow2 :: "int \<Rightarrow> real" where
  "pow2 k = (if 0 \<le> k then 2 ^ nat k else 1 / 2 ^ nat (- k))"

fun exponent :: "nat \<Rightarrow> real \<Rightarrow> int" where
  "exponent 0 a = 0"
| "exponent (Suc n) a =
     (if 2 \<le> a then exponent n (a / 2) + 1
      else if a < 1 then exponent n (a * 2) - 1
      else 0)"

definition ulpExponent :: "real \<Rightarrow> int" where
  "ulpExponent r = min (max (exponent 1100 \<bar>r\<bar>) (- 1022)) 1023 - 52"

definition roundHalfEven :: "real \<Rightarrow> int" where
  "roundHalfEven q =
     (let f = \<lfloor>q\<rfloor> in
      if q - of_int f < 1 / 2 then f
      else if 1 / 2 < q - of_int f then f + 1
      else if even f then f else f + 1)"

definition double :: "real \<Rightarrow> real" where
  "double r =
     (if r = 0 then 0
      else (let u = pow2 (ulpExponent r) in of_int (roundHalfEven (r / u)) * u))"

text \<open>The real number \<open>r\<close> is a finite double: it is below \<open>2 ^ 1024\<close> in magnitude and
  rounding leaves it unchanged.\<close>

definition isDouble :: "real \<Rightarrow> bool" where
  "isDouble r \<longleftrightarrow> double r = r \<and> \<bar>r\<bar> < pow2 1024"

subsection \<open>MapCharacter\<close>

record MapCharacter =
  x :: real
  y :: real

definition collisionBuffer :: real where "collisionBuffer = 26"
definition MAP_ROWS :: int where "MAP_ROWS = 6"
definition MAP_COLS :: int where "MAP_COLS = 5"
definition X_START :: real where "X_START = 0"
definition X_OFFSET :: real where "X_OFFSET = 101"
definition Y_START :: real where "Y_START = 45"
definition Y_OFFSET :: real where "Y_OFFSET = 83"
definition CHAR_SIZE_X :: real where "CHAR_SIZE_X = 101"
definition CHAR_SIZE_Y :: real where "CHAR_SIZE_Y = 83"

definition getYOffsetForRow :: "real \<Rightarrow> real" where
  "getYOffsetForRow rowNum = Y_START + (rowNum * Y_OFFSET)"

definition getXOffsetForCol :: "real \<Rightarrow> real" where
  "getXOffsetForCol colNum = X_START + (colNum * X_OFFSET)"

record rect =
  xPos :: real
  yPos :: real
  width :: real
  height :: real

definition getCollisionDims :: "'a MapCharacter_scheme \<Rightarrow> rect" where
  "getCollisionDims this =
     (let halfBuff = double (collisionBuffer / 2) in
      \<lparr>xPos = double (x this + halfBuff),
       yPos = double (y this + halfBuff),
       width = double (CHAR_SIZE_X - collisionBuffer),
       height = double (CHAR_SIZE_Y - collisionBuffer)\<rparr>)"

subsection \<open>Global functions\<close>

definition isCollision :: "rect \<Rightarrow> rect \<Rightarrow> bool" where
  "isCollision rect1 rect2 =
     (let noIntersectionX =
            (xPos rect1 > double (xPos rect2 + width rect2)
             \<or> xPos rect1 < double (xPos rect2 - width rect1));
          noIntersectionY =
            (yPos rect1 > double (yPos rect2 + height rect2)
             \<or> yPos rect1 < double (yPos rect2 - height rect1))
      in \<not> noIntersectionX \<and> \<not> noIntersectionY)"

subsection \<open>Enemy\<close>

type_synonym rand = "nat \<Rightarrow> real"

record Enemy = MapCharacter +
  speed :: real

definition MIN_SPEED :: real where "MIN_SPEED = 75"
definition MAX_SPEED :: real where "MAX_SPEED = 320"

text \<open>\<open>reset\<close> calls \<^verbatim>\<open>Math.random()\<close> twice: \<open>rnd 0\<close> picks the row, \<open>rnd 1\<close> the speed.\<close>

definition Enemy_reset :: "rand \<Rightarrow> Enemy \<Rightarrow> Enemy" where
  "Enemy_reset rnd this =
     this\<lparr>x := X_START - X_OFFSET,
          y := getYOffsetForRow (of_int (\<lfloor>rnd 0 * (4 - 1)\<rfloor> + 1)),
          speed := rnd 1 * (MAX_SPEED - MIN_SPEED) + MIN_SPEED\<rparr>"

definition Enemy_update :: "rand \<Rightarrow> real \<Rightarrow> Enemy \<Rightarrow> Enemy" where
  "Enemy_update rnd dt this =
     (let this1 = this\<lparr>x := x this + dt * speed this\<rparr> in
      if x this1 > getXOffsetForCol (of_int MAP_COLS) + X_OFFSET
      then Enemy_reset rnd this1
      else this1)"

text \<open>The constructor: \<open>MapCharacter.call(this)\<close> puts the enemy at (0, 0), then \<open>reset\<close>
  gives it its position and its speed (the field has no value before that; 0 stands for it).\<close>

definition newEnemy :: "rand \<Rightarrow> Enemy" where
  "newEnemy rnd = Enemy_reset rnd \<lparr>x = 0, y = 0, speed = 0\<rparr>"

subsection \<open>Player\<close>

record Player = MapCharacter +
  row :: int
  col :: int
  movingEnabled :: bool

definition Player_reset :: "Player \<Rightarrow> Player" where
  "Player_reset this =
     (let this1 = this\<lparr>row := MAP_ROWS - 1\<rparr>;
          this2 = this1\<lparr>col := \<lfloor>of_int MAP_COLS / (2 :: real)\<rfloor>\<rparr>;
          this3 = this2\<lparr>x := getXOffsetForCol (of_int (col this2))\<rparr>
      in this3\<lparr>y := getYOffsetForRow (of_int (row this3))\<rparr>)"

definition Player_update :: "Player \<Rightarrow> Player" where
  "Player_update this =
     (let this1 = this\<lparr>x := getXOffsetForCol (of_int (col this))\<rparr>
      in this1\<lparr>y := getYOffsetForRow (of_int (row this1))\<rparr>)"

definition enableMoves :: "bool \<Rightarrow> Player \<Rightarrow> Player" where
  "enableMoves shouldEnable this = this\<lparr>movingEnabled := shouldEnable\<rparr>"

definition handleInput :: "string \<Rightarrow> Player \<Rightarrow> Player" where
  "handleInput inputKey this =
     (if movingEnabled this then
        (if inputKey = ''left'' then
           (if col this > 0 then this\<lparr>col := col this - 1\<rparr> else this)
         else if inputKey = ''right'' then
           (if col this < MAP_COLS - 1 then this\<lparr>col := col this + 1\<rparr> else this)
         else if inputKey = ''up'' then
           (if row this > 0 then this\<lparr>row := row this - 1\<rparr> else this)
         else if inputKey = ''down'' then
           (if row this < MAP_ROWS - 1 then this\<lparr>row := row this + 1\<rparr> else this)
         else this)
      else this)"

text \<open>The constructor: position (0, 0), then \<open>reset\<close>, then moves enabled.\<close>

definition newPlayer :: Player where
  "newPlayer =
     (Player_reset \<lparr>x = 0, y = 0, row = 0, col = 0, movingEnabled = False\<rparr>)
       \<lparr>movingEnabled := True\<rparr>"

text \<open>What the outside world can do to the player between two resets: send a key, or set
  the gate flag. A sequence of such calls is run from left to right.\<close>

datatype playerCall = HandleInput string | EnableMoves bool

fun applyCall :: "playerCall \<Rightarrow> Player \<Rightarrow> Player" where
  "applyCall (HandleInput k) p = handleInput k p"
| "applyCall (EnableMoves b) p = enableMoves b p"

fun playerCalls :: "playerCall list \<Rightarrow> Player \<Rightarrow> Player" where
  "playerCalls [] p = p"
| "playerCalls (c # cs) p = playerCalls cs (applyCall c p)"

subsection \<open>BonusItem\<close>

type_synonym BonusItem = MapCharacter

text \<open>The constructor draws twice: \<open>rnd 0\<close> picks the column, \<open>rnd 1\<close> the row.\<close>

definition newBonusItem :: "rand \<Rightarrow> BonusItem" where
  "newBonusItem rnd =
     \<lparr>x = getXOffsetForCol (of_int \<lfloor>rnd 0 * of_int MAP_COLS\<rfloor>),
      y = getYOffsetForRow (of_int (\<lfloor>rnd 1 * (3 - 1)\<rfloor> + 1))\<rparr>"

subsection \<open>Scoreboard and the global game objects\<close>

record Scoreboard =
  score :: int
  won :: bool
  lost :: bool
  bonus :: bool
  currentTime :: int
  running :: bool
  gameOver :: bool

definition GAME_TIME :: int where "GAME_TIME = 60"

text \<open>
  The callbacks that the scoreboard hands to \<^verbatim>\<open>setInterval\<close> and \<^verbatim>\<open>setTimeout\<close>, and
  the platform's table of pending timers. When a pending timer fires is up to the platform;
  the model records which timers exist, and \<open>fire\<close> below runs one of them.
\<close>

datatype callback =
  CountdownTick | BonusSpawnTick | BonusRemove | EndWin | EndLose | EndBonus

record timer =
  tid :: nat
  cb :: callback
  delay :: nat
  repeating :: bool

text \<open>The globals \<open>player\<close>, \<open>scoreboard\<close>, \<open>bonusItems\<close> and \<open>allEnemies\<close>, with the timers.\<close>

record world =
  player :: Player
  scoreboard :: Scoreboard
  bonusItems :: "BonusItem list"
  allEnemies :: "Enemy list"
  timers :: "timer list"
  nextTimerId :: nat

definition setInterval :: "callback \<Rightarrow> nat \<Rightarrow> world \<Rightarrow> world" where
  "setInterval f ms w =
     w\<lparr>timers := timers w @ [\<lparr>tid = nextTimerId w, cb = f, delay = ms, repeating = True\<rparr>],
       nextTimerId := nextTimerId w + 1\<rparr>"

definition setTimeout :: "callback \<Rightarrow> nat \<Rightarrow> world \<Rightarrow> world" where
  "setTimeout f ms w =
     w\<lparr>timers := timers w @ [\<lparr>tid = nextTimerId w, cb = f, delay = ms, repeating = False\<rparr>],
       nextTimerId := nextTimerId w + 1\<rparr>"

definition clearInterval :: "nat \<Rightarrow> world \<Rightarrow> world" where
  "clearInterval intervalID w = w\<lparr>timers := filter (\<lambda>t. tid t \<noteq> intervalID) (timers w)\<rparr>"

text \<open>The objects as the script creates them: the player, then the scoreboard (whose
  constructor disables the moves), no bonus item, no enemy, no timer.\<close>

definition newScoreboard :: Scoreboard where
  "newScoreboard =
     \<lparr>score = 0, won = False, lost = False, bonus = False,
      currentTime = GAME_TIME, running = False, gameOver = False\<rparr>"

definition initialWorld :: world where
  "initialWorld =
     \<lparr>player = enableMoves False newPlayer, scoreboard = newScoreboard,
      bonusItems = [], allEnemies = [], timers = [], nextTimerId = 0\<rparr>"

definition countdown :: "world \<Rightarrow> world" where
  "countdown w = setInterval CountdownTick 1000 w"

definition manageBonusItems :: "world \<Rightarrow> world" where
  "manageBonusItems w = setInterval BonusSpawnTick 6000 w"

definition endWinState :: "world \<Rightarrow> world" where
  "endWinState w = setTimeout EndWin 750 w"

definition endLoseState :: "world \<Rightarrow> world" where
  "endLoseState w = setTimeout EndLose 750 w"

definition endBonusState :: "world \<Rightarrow> world" where
  "endBonusState w = setTimeout EndBonus 500 w"

text \<open>The loop of \<open>startGame\<close>: \<open>for (var i = 0; i < 7; i++) allEnemies.push(new Enemy())\<close>.
  The enemy number \<open>i\<close> gets the draws \<open>2 * i\<close> and \<open>2 * i + 1\<close> of the random source.\<close>

function spawnEnemies :: "nat \<Rightarrow> rand \<Rightarrow> world \<Rightarrow> world" where
  "spawnEnemies i rnd w =
     (if i < 7
      then spawnEnemies (i + 1) rnd
             (w\<lparr>allEnemies := allEnemies w @ [newEnemy (\<lambda>n. rnd (2 * i + n))]\<rparr>)
      else w)"
  by pat_completeness auto
termination
  by (relation "measure (\<lambda>(i, rnd, w). 7 - i)") auto

declare spawnEnemies.simps [simp del]

definition startGame :: "rand \<Rightarrow> world \<Rightarrow> world" where
  "startGame rnd w =
     (let w1 = w\<lparr>scoreboard := (scoreboard w)\<lparr>running := True\<rparr>\<rparr>;
          w2 = w1\<lparr>scoreboard := (scoreboard w1)\<lparr>currentTime := GAME_TIME\<rparr>\<rparr>;
          w3 = w2\<lparr>scoreboard := (scoreboard w2)\<lparr>gameOver := False\<rparr>\<rparr>;
          w4 = spawnEnemies 0 rnd w3;
          w5 = w4\<lparr>player := enableMoves True (player w4)\<rparr>;
          w6 = countdown w5
      in manageBonusItems w6)"

definition handleGameOver :: "world \<Rightarrow> world" where
  "handleGameOver w =
     (let w1 = w\<lparr>scoreboard := (scoreboard w)\<lparr>running := False\<rparr>\<rparr>;
          w2 = w1\<lparr>player := enableMoves False (player w1)\<rparr>;
          w3 = w2\<lparr>player := Player_reset (player w2)\<rparr>;
          w4 = w3\<lparr>allEnemies := []\<rparr>;
          w5 = w4\<lparr>bonusItems := []\<rparr>
      in w5\<lparr>scoreboard := (scoreboard w5)\<lparr>gameOver := True\<rparr>\<rparr>)"

text \<open>The two loops of \<open>checkWinAndCollision\<close>. Each stops at the first hit (\<open>break\<close>);
  \<open>playerDims\<close> was computed before the loops and is not recomputed after a reset.\<close>

fun enemyLoop :: "rect \<Rightarrow> Enemy list \<Rightarrow> world \<Rightarrow> world" where
  "enemyLoop playerDims [] w = w"
| "enemyLoop playerDims (e # es) w =
     (if isCollision playerDims (getCollisionDims e) then
        (let w1 = w\<lparr>scoreboard := (scoreboard w)\<lparr>score := score (scoreboard w) - 1\<rparr>\<rparr>;
             w2 = w1\<lparr>scoreboard := (scoreboard w1)\<lparr>lost := True\<rparr>\<rparr>;
             w3 = w2\<lparr>player := Player_reset (player w2)\<rparr>;
             w4 = w3\<lparr>player := enableMoves False (player w3)\<rparr>
         in endLoseState w4)
      else enemyLoop playerDims es w)"

fun bonusLoop :: "rect \<Rightarrow> BonusItem list \<Rightarrow> world \<Rightarrow> world" where
  "bonusLoop playerDims [] w = w"
| "bonusLoop playerDims (b # bs) w =
     (if isCollision playerDims (getCollisionDims b) then
        (let w1 = w\<lparr>scoreboard := (scoreboard w)\<lparr>score := score (scoreboard w) + 1\<rparr>\<rparr>;
             w2 = w1\<lparr>scoreboard := (scoreboard w1)\<lparr>bonus := True\<rparr>\<rparr>;
             w3 = w2\<lparr>bonusItems := []\<rparr>
         in endBonusState w3)
      else bonusLoop playerDims bs w)"

definition checkWinAndCollision :: "world \<Rightarrow> world" where
  "checkWinAndCollision w =
     (if running (scoreboard w) then
        (if row (player w) \<le> 0 then
           (let w1 = w\<lparr>scoreboard := (scoreboard w)\<lparr>won := True\<rparr>\<rparr>;
                w2 = w1\<lparr>scoreboard := (scoreboard w1)\<lparr>score := score (scoreboard w1) + 1\<rparr>\<rparr>;
                w3 = w2\<lparr>player := Player_reset (player w2)\<rparr>;
                w4 = w3\<lparr>player := enableMoves False (player w3)\<rparr>
            in endWinState w4)
         else
           (let playerDims = getCollisionDims (player w);
                w1 = enemyLoop playerDims (allEnemies w) w
            in bonusLoop playerDims (bonusItems w1) w1))
      else w)"

definition Scoreboard_update :: "world \<Rightarrow> world" where
  "Scoreboard_update w = checkWinAndCollision w"

text \<open>The bodies of the timer callbacks. An interval callback knows its own \<open>intervalID\<close>.\<close>

definition countdownTick :: "nat \<Rightarrow> world \<Rightarrow> world" where
  "countdownTick intervalID w =
     (if currentTime (scoreboard w) = 0
      then handleGameOver (clearInterval intervalID w)
      else w\<lparr>scoreboard := (scoreboard w)\<lparr>currentTime := currentTime (scoreboard w) - 1\<rparr>\<rparr>)"

definition bonusSpawnTick :: "rand \<Rightarrow> nat \<Rightarrow> world \<Rightarrow> world" where
  "bonusSpawnTick rnd intervalID w =
     (if running (scoreboard w) then
        (let w1 = w\<lparr>bonusItems := []\<rparr>;
             w2 = w1\<lparr>bonusItems := bonusItems w1 @ [newBonusItem rnd]\<rparr>
         in setTimeout BonusRemove 4000 w2)
      else
        (let w1 = clearInterval intervalID w
         in w1\<lparr>bonusItems := []\<rparr>))"

definition bonusRemove :: "world \<Rightarrow> world" where
  "bonusRemove w = w\<lparr>bonusItems := []\<rparr>"

definition endWin :: "world \<Rightarrow> world" where
  "endWin w =
     (let w1 = w\<lparr>scoreboard := (scoreboard w)\<lparr>won := False\<rparr>\<rparr>
      in if running (scoreboard w1) then w1\<lparr>player := enableMoves True (player w1)\<rparr> else w1)"

definition endLose :: "world \<Rightarrow> world" where
  "endLose w =
     (let w1 = w\<lparr>scoreboard := (scoreboard w)\<lparr>lost := False\<rparr>\<rparr>
      in if running (scoreboard w1) then w1\<lparr>player := enableMoves True (player w1)\<rparr> else w1)"

definition endBonus :: "world \<Rightarrow> world" where
  "endBonus w = w\<lparr>scoreboard := (scoreboard w)\<lparr>bonus := False\<rparr>\<rparr>"

fun runCallback :: "rand \<Rightarrow> nat \<Rightarrow> callback \<Rightarrow> world \<Rightarrow> world" where
  "runCallback rnd i CountdownTick w = countdownTick i w"
| "runCallback rnd i BonusSpawnTick w = bonusSpawnTick rnd i w"
| "runCallback rnd i BonusRemove w = bonusRemove w"
| "runCallback rnd i EndWin w = endWin w"
| "runCallback rnd i EndLose w = endLose w"
| "runCallback rnd i EndBonus w = endBonus w"

text \<open>The platform fires the pending timer \<open>i\<close>: a timeout leaves the table before its
  callback runs, an interval stays until it is cleared. A timer that is not pending does
  not fire.\<close>

definition fire :: "rand \<Rightarrow> nat \<Rightarrow> world \<Rightarrow> world" where
  "fire rnd i w =
     (case find (\<lambda>t. tid t = i) (timers w) of
        None \<Rightarrow> w
      | Some t \<Rightarrow> runCallback rnd i (cb t) (if repeating t then w else clearInterval i w))"

text \<open>\<open>n\<close> successive firings of the timer \<open>i\<close>.\<close>

fun fires :: "nat \<Rightarrow> rand \<Rightarrow> nat \<Rightarrow> world \<Rightarrow> world" where
  "fires 0 rnd i w = w"
| "fires (Suc n) rnd i w = fires n rnd i (fire rnd i w)"

definition pending :: "nat \<Rightarrow> world \<Rightarrow> bool" where
  "pending i w \<longleftrightarrow> find (\<lambda>t. tid t = i) (timers w) \<noteq> None"

subsection \<open>Predicates and sample states used in the statements\<close>

text \<open>The player's row and column are on the grid.\<close>

definition onGrid :: "Player \<Rightarrow> bool" where
  "onGrid p \<longleftrightarrow> 0 \<le> row p \<and> row p \<le> MAP_ROWS - 1 \<and> 0 \<le> col p \<and> col p \<le> MAP_COLS - 1"

text \<open>The player's collision box intersects the box of at least one of the characters \<open>cs\<close>,
  by the test that \<open>checkWinAndCollision\<close> makes.\<close>

definition playerHits :: "world \<Rightarrow> 'a MapCharacter_scheme list \<Rightarrow> bool" where
  "playerHits w cs \<longleftrightarrow>
     (\<exists>c \<in> set cs. isCollision (getCollisionDims (player w)) (getCollisionDims c))"

text \<open>None of the four bounds that \<open>isCollision A B\<close> computes is changed by rounding.\<close>

definition exactBounds :: "rect \<Rightarrow> rect \<Rightarrow> bool" where
  "exactBounds A B \<longleftrightarrow>
     double (xPos B + width B) = xPos B + width B
     \<and> double (xPos B - width A) = xPos B - width A
     \<and> double (yPos B + height B) = yPos B + height B
     \<and> double (yPos B - height A) = yPos B - height A"

text \<open>A running game in which the player stands on row 1, column 0, on a bonus item, with
  an enemy at the same place.\<close>

definition sceneRow1 :: world where
  "sceneRow1 =
     \<lparr>player = \<lparr>x = 0, y = 128, row = 1, col = 0, movingEnabled = True\<rparr>,
      scoreboard = \<lparr>score = 0, won = False, lost = False, bonus = False,
                    currentTime = 30, running = True, gameOver = False\<rparr>,
      bonusItems = [\<lparr>x = 0, y = 128\<rparr>],
      allEnemies = [\<lparr>x = 0, y = 128, speed = 100\<rparr>],
      timers = [\<lparr>tid = 0, cb = CountdownTick, delay = 1000, repeating = True\<rparr>,
                \<lparr>tid = 1, cb = BonusSpawnTick, delay = 6000, repeating = True\<rparr>,
                \<lparr>tid = 2, cb = BonusRemove, delay = 4000, repeating = False\<rparr>],
      nextTimerId = 3\<rparr>"

text \<open>A running game in which the player stands on row 2, column 3, on a bonus item; one
  enemy waits left of the grid and another overlaps the player's cell.\<close>

definition sceneRow2 :: world where
  "sceneRow2 =
     \<lparr>player = \<lparr>x = 303, y = 211, row = 2, col = 3, movingEnabled = True\<rparr>,
      scoreboard = \<lparr>score = 4, won = False, lost = False, bonus = False,
                    currentTime = 12, running = True, gameOver = False\<rparr>,
      bonusItems = [\<lparr>x = 303, y = 211\<rparr>],
      allEnemies = [\<lparr>x = - 101, y = 128, speed = 75\<rparr>, \<lparr>x = 581 / 2, y = 211, speed = 320\<rparr>],
      timers = [\<lparr>tid = 0, cb = CountdownTick, delay = 1000, repeating = True\<rparr>,
                \<lparr>tid = 1, cb = BonusSpawnTick, delay = 6000, repeating = True\<rparr>,
                \<lparr>tid = 2, cb = BonusRemove, delay = 4000, repeating = False\<rparr>],
      nextTimerId = 3\<rparr>"

subsection \<open>The states that the game can reach\<close>

text \<open>
  Modelled from the spec: the frame driver and the Play action, which call \<open>update\<close> and
  \<open>startGame\<close>, are not in js/app.js. The spec has the driver call \<open>update\<close> on every enemy,
  on the player and on the scoreboard in each frame, and has \<open>startGame\<close> as the entry point
  of the Play action. Key releases reach \<open>handleInput\<close> through the listener at the end of
  the script, and the platform fires pending timers. The game starts from the objects that
  the script creates; every interleaving of these steps is allowed.
\<close>

inductive reachable :: "world \<Rightarrow> bool" where
  script: "reachable initialWorld"
| play: "reachable w \<Longrightarrow> reachable (startGame rnd w)"
| keyup: "reachable w \<Longrightarrow> reachable (w\<lparr>player := handleInput inputKey (player w)\<rparr>)"
| enemyUpdate:
    "reachable w \<Longrightarrow> j < length (allEnemies w) \<Longrightarrow>
     reachable (w\<lparr>allEnemies := (allEnemies w)[j := Enemy_update rnd dt (allEnemies w ! j)]\<rparr>)"
| playerUpdate: "reachable w \<Longrightarrow> reachable (w\<lparr>player := Player_update (player w)\<rparr>)"
| scoreboardUpdate: "reachable w \<Longrightarrow> reachable (Scoreboard_update w)"
| timer: "reachable w \<Longrightarrow> reachable (fire rnd i w)"

text \<open>Some countdown interval is pending.\<close>

definition countdownPending :: "world \<Rightarrow> bool" where
  "countdownPending w \<longleftrightarrow> (\<exists>t \<in> set (timers w). cb t = CountdownTick)"

text \<open>The state that \<open>handleGameOver\<close> leaves when the clock is at 0: calling it again changes
  nothing.\<close>

definition gameIsOver :: "world \<Rightarrow> bool" where
  "gameIsOver w \<longleftrightarrow>
     currentTime (scoreboard w) = 0 \<and> gameOver (scoreboard w)
     \<and> player w = Player_reset (enableMoves False (player w))
     \<and> allEnemies w = [] \<and> bonusItems w = []"

text \<open>While a game is stopped and a countdown is still pending, the game is over.\<close>

definition stoppedInv :: "world \<Rightarrow> bool" where
  "stoppedInv w \<longleftrightarrow> (\<not> running (scoreboard w) \<and> countdownPending w \<longrightarrow> gameIsOver w)"

text \<open>Every pending countdown is an interval.\<close>

definition countdownsRepeat :: "world \<Rightarrow> bool" where
  "countdownsRepeat w \<longleftrightarrow> (\<forall>t \<in> set (timers w). cb t = CountdownTick \<longrightarrow> repeating t)"

section \<open>Constants\<close>

lemmas map_consts =
  collisionBuffer_def MAP_ROWS_def MAP_COLS_def X_START_def X_OFFSET_def
  Y_START_def Y_OFFSET_def CHAR_SIZE_X_def CHAR_SIZE_Y_def

section \<open>Rounding to a double\<close>

lemma pow2_powr: "pow2 k = 2 powr (of_int k)"
  by (simp add: pow2_def powr_int)

lemma pow2_pos [simp]: "0 < pow2 k"
  by (simp add: pow2_powr)

lemma pow2_add: "pow2 (i + j) = pow2 i * pow2 j"
  by (simp add: pow2_powr powr_add)

lemma pow2_mono: "i \<le> j \<Longrightarrow> pow2 i \<le> pow2 j"
  by (simp add: pow2_powr)

lemma pow2_nat: "0 \<le> k \<Longrightarrow> pow2 k = of_int (2 ^ nat k)"
  by (simp add: pow2_def)

lemma pow2_Suc: "pow2 (k + 1) = 2 * pow2 k"
  using pow2_add [of k 1] by (simp add: pow2_def)

lemma exponent_up:
  "1 \<le> a \<Longrightarrow> 0 \<le> exponent n a \<and> exponent n a \<le> int n \<and> pow2 (exponent n a) \<le> a
     \<and> (exponent n a < int n \<longrightarrow> a < pow2 (exponent n a + 1))"
proof (induction n arbitrary: a)
  case 0
  then show ?case by (simp add: pow2_def)
next
  case (Suc n)
  show ?case
  proof (cases "2 \<le> a")
    case True
    define e where "e = exponent n (a / 2)"
    have ex: "exponent (Suc n) a = e + 1" using True by (simp add: e_def)
    from True have "1 \<le> a / 2" by simp
    from Suc.IH [OF this]
    have ih: "0 \<le> e" "e \<le> int n" "pow2 e \<le> a / 2" "e < int n \<longrightarrow> a / 2 < pow2 (e + 1)"
      by (simp_all add: e_def)
    have p1: "pow2 (e + 1) = 2 * pow2 e" by (rule pow2_Suc)
    have p2: "pow2 (e + 1 + 1) = 2 * pow2 (e + 1)" by (rule pow2_Suc)
    have c1: "0 \<le> e + 1" "e + 1 \<le> int (Suc n)" using ih by simp_all
    have c2: "pow2 (e + 1) \<le> a" using ih(3) p1 by simp
    have c3: "e + 1 < int (Suc n) \<longrightarrow> a < pow2 (e + 1 + 1)" using ih(4) p2 by auto
    from c1 c2 c3 show ?thesis unfolding ex by blast
  next
    case False
    with Suc.prems show ?thesis by (simp add: pow2_def)
  qed
qed

lemma exponent_down:
  "0 < a \<Longrightarrow> a < 1 \<Longrightarrow> - int n \<le> exponent n a \<and> exponent n a \<le> 0
     \<and> (- int n < exponent n a \<longrightarrow> pow2 (exponent n a) \<le> a)
     \<and> a < pow2 (exponent n a + 1)"
proof (induction n arbitrary: a)
  case 0
  then show ?case by (simp add: pow2_def)
next
  case (Suc n)
  define e where "e = exponent n (a * 2)"
  have ex: "exponent (Suc n) a = e - 1" using Suc.prems by (simp add: e_def)
  have p1: "pow2 (e - 1 + 1) = 2 * pow2 (e - 1)" by (rule pow2_Suc)
  have p0: "pow2 (e - 1 + 1) = pow2 e" by simp
  have p2: "pow2 (e + 1) = 2 * pow2 e" by (rule pow2_Suc)
  show ?case
  proof (cases "a * 2 < 1")
    case True
    have "0 < a * 2" using Suc.prems by simp
    from Suc.IH [OF this True]
    have ih: "- int n \<le> e" "e \<le> 0" "- int n < e \<longrightarrow> pow2 e \<le> a * 2" "a * 2 < pow2 (e + 1)"
      by (simp_all add: e_def)
    have c1: "- int (Suc n) \<le> e - 1" "e - 1 \<le> 0" using ih by simp_all
    have c2: "- int (Suc n) < e - 1 \<longrightarrow> pow2 (e - 1) \<le> a" using ih(3) p1 p0 by auto
    have c3: "a < pow2 (e - 1 + 1)" using ih(4) p2 p0 by simp
    from c1 c2 c3 show ?thesis unfolding ex by blast
  next
    case False
    then have e0: "e = 0" using Suc.prems unfolding e_def by (cases n) auto
    have c1: "- int (Suc n) \<le> e - 1" "e - 1 \<le> 0" using e0 by simp_all
    have c2: "pow2 (e - 1) \<le> a" using False e0 by (simp add: pow2_def)
    have c3: "a < pow2 (e - 1 + 1)" using Suc.prems e0 by (simp add: pow2_def)
    from c1 c2 c3 show ?thesis unfolding ex by blast
  qed
qed

lemma ulpExponent_spec:
  assumes "r \<noteq> 0"
  shows "- 1074 \<le> ulpExponent r \<and> ulpExponent r \<le> 971
         \<and> (- 1074 < ulpExponent r \<longrightarrow> pow2 (ulpExponent r + 52) \<le> \<bar>r\<bar>)
         \<and> (ulpExponent r < 971 \<longrightarrow> \<bar>r\<bar> < pow2 (ulpExponent r + 52 + 1))"
proof (cases "1 \<le> \<bar>r\<bar>")
  case True
  define e where "e = exponent 1100 \<bar>r\<bar>"
  from exponent_up [OF True, of 1100]
  have up: "0 \<le> e" "pow2 e \<le> \<bar>r\<bar>" "e < 1100 \<longrightarrow> \<bar>r\<bar> < pow2 (e + 1)"
    by (simp_all add: e_def)
  show ?thesis
  proof (cases "e < 1023")
    case True
    then have u: "ulpExponent r + 52 = e" using up(1) by (simp add: ulpExponent_def e_def)
    have u': "ulpExponent r = e - 52" using u by simp
    from up True show ?thesis unfolding u unfolding u' by simp
  next
    case False
    then have u: "ulpExponent r + 52 = 1023" by (simp add: ulpExponent_def e_def)
    have u': "ulpExponent r = 971" using u by simp
    have "pow2 1023 \<le> pow2 e" using False by (intro pow2_mono) simp
    with up(2) have "pow2 1023 \<le> \<bar>r\<bar>" by simp
    then show ?thesis unfolding u unfolding u' by simp
  qed
next
  case False
  with assms have a: "0 < \<bar>r\<bar>" "\<bar>r\<bar> < 1" by simp_all
  define e where "e = exponent 1100 \<bar>r\<bar>"
  from exponent_down [OF a, of 1100]
  have dn: "e \<le> 0" "- 1100 < e \<longrightarrow> pow2 e \<le> \<bar>r\<bar>" "\<bar>r\<bar> < pow2 (e + 1)"
    by (simp_all add: e_def)
  show ?thesis
  proof (cases "- 1022 < e")
    case True
    then have u: "ulpExponent r + 52 = e" using dn(1) by (simp add: ulpExponent_def e_def)
    have u': "ulpExponent r = e - 52" using u by simp
    from dn True show ?thesis unfolding u unfolding u' by simp
  next
    case False
    then have u: "ulpExponent r + 52 = - 1022" using dn(1) by (simp add: ulpExponent_def e_def)
    have u': "ulpExponent r = - 1074" using u by simp
    have "pow2 (e + 1) \<le> pow2 (- 1022 + 1)" using False by (intro pow2_mono) simp
    with dn(3) have "\<bar>r\<bar> < pow2 (- 1022 + 1)" by simp
    then show ?thesis unfolding u unfolding u' by simp
  qed
qed

lemma roundHalfEven_ge: "of_int m \<le> q \<Longrightarrow> m \<le> roundHalfEven q"
proof -
  assume "of_int m \<le> q"
  then have "m \<le> \<lfloor>q\<rfloor>" by (simp add: le_floor_iff)
  then show ?thesis by (simp add: roundHalfEven_def Let_def)
qed

lemma roundHalfEven_le: "q \<le> of_int m \<Longrightarrow> roundHalfEven q \<le> m"
proof -
  assume q: "q \<le> of_int m"
  then have f: "\<lfloor>q\<rfloor> \<le> m" by (simp add: floor_le_iff)
  have up: "of_int \<lfloor>q\<rfloor> < q \<Longrightarrow> \<lfloor>q\<rfloor> + 1 \<le> m"
  proof -
    assume "of_int \<lfloor>q\<rfloor> < q"
    with q have "(of_int \<lfloor>q\<rfloor> :: real) < of_int m" by simp
    then have "\<lfloor>q\<rfloor> < m" by (simp only: of_int_less_iff)
    then show ?thesis by simp
  qed
  show ?thesis
  proof (cases "q - of_int \<lfloor>q\<rfloor> < 1 / 2")
    case True
    then show ?thesis using f by (simp add: roundHalfEven_def Let_def)
  next
    case False
    then have "of_int \<lfloor>q\<rfloor> < q" by simp
    from up [OF this] f show ?thesis by (simp add: roundHalfEven_def Let_def)
  qed
qed

lemma double_nonzero:
  "r \<noteq> 0 \<Longrightarrow>
   double r = of_int (roundHalfEven (r / pow2 (ulpExponent r))) * pow2 (ulpExponent r)"
  by (simp add: double_def Let_def)

lemma double_multiple:
  assumes "r \<noteq> 0" "a = of_int m * pow2 (ulpExponent r)"
  shows "(a \<le> r \<longrightarrow> a \<le> double r) \<and> (r \<le> a \<longrightarrow> double r \<le> a)"
proof -
  define u where "u = pow2 (ulpExponent r)"
  have u: "0 < u" by (simp add: u_def)
  have d: "double r = of_int (roundHalfEven (r / u)) * u"
    using double_nonzero [OF assms(1)] by (simp add: u_def)
  have a: "a = of_int m * u" using assms(2) by (simp add: u_def)
  have ge: "a \<le> r \<Longrightarrow> a \<le> double r"
  proof -
    assume "a \<le> r"
    then have "of_int m \<le> r / u" using u a by (simp add: pos_le_divide_eq)
    then have "m \<le> roundHalfEven (r / u)" by (rule roundHalfEven_ge)
    then have "(of_int m :: real) \<le> of_int (roundHalfEven (r / u))" by simp
    then show ?thesis unfolding d a using u by (simp add: mult_right_mono)
  qed
  have le: "r \<le> a \<Longrightarrow> double r \<le> a"
  proof -
    assume "r \<le> a"
    then have "r / u \<le> of_int m" using u a by (simp add: pos_divide_le_eq)
    then have "roundHalfEven (r / u) \<le> m" by (rule roundHalfEven_le)
    then have "(of_int (roundHalfEven (r / u)) :: real) \<le> of_int m" by simp
    then show ?thesis unfolding d a using u by (simp add: mult_right_mono)
  qed
  from ge le show ?thesis by blast
qed

lemma double_binade:
  assumes "r \<noteq> 0" "- 1074 < ulpExponent r" "\<bar>a\<bar> < pow2 (ulpExponent r + 52)"
  shows "(a \<le> r \<longrightarrow> a \<le> double r) \<and> (r \<le> a \<longrightarrow> double r \<le> a)"
proof -
  define u where "u = pow2 (ulpExponent r)"
  define P where "P = pow2 (ulpExponent r + 52)"
  have u: "0 < u" by (simp add: u_def)
  have P: "P = of_int (2 ^ 52) * u"
    using pow2_add [of 52 "ulpExponent r"] pow2_nat [of 52]
    by (simp add: P_def u_def add.commute)
  have Pr: "P \<le> \<bar>r\<bar>" using ulpExponent_spec [OF assms(1)] assms(2) by (simp add: P_def)
  have aP: "\<bar>a\<bar> < P" using assms(3) by (simp add: P_def)
  have m: "\<And>m. P = of_int m * pow2 (ulpExponent r) \<Longrightarrow> - P = of_int (- m) * pow2 (ulpExponent r)"
    by simp
  have Pm: "P = of_int (2 ^ 52) * pow2 (ulpExponent r)" using P by (simp add: u_def)
  have mPm: "- P = of_int (- (2 ^ 52)) * pow2 (ulpExponent r)" using Pm by simp
  have ge: "a \<le> r \<Longrightarrow> a \<le> double r"
  proof -
    assume ar: "a \<le> r"
    have "P \<le> r" using Pr aP ar by (cases "0 \<le> r") simp_all
    with double_multiple [OF assms(1) Pm] have "P \<le> double r" by blast
    with aP show ?thesis by simp
  qed
  have le: "r \<le> a \<Longrightarrow> double r \<le> a"
  proof -
    assume ra: "r \<le> a"
    have "r \<le> - P" using Pr aP ra by (cases "0 \<le> r") simp_all
    with double_multiple [OF assms(1) mPm] have "double r \<le> - P" by blast
    with aP show ?thesis by simp
  qed
  from ge le show ?thesis by blast
qed

lemma double_between:
  assumes "isDouble a"
  shows "(a \<le> r \<longrightarrow> a \<le> double r) \<and> (r \<le> a \<longrightarrow> double r \<le> a)"
proof (cases "r = 0")
  case True
  then show ?thesis by (simp add: double_def)
next
  case r: False
  show ?thesis
  proof (cases "a = 0")
    case True
    have "a = of_int 0 * pow2 (ulpExponent r)" using True by simp
    from double_multiple [OF r this] show ?thesis .
  next
    case a: False
    define na where "na = roundHalfEven (a / pow2 (ulpExponent a))"
    have an: "a = of_int na * pow2 (ulpExponent a)"
      using assms double_nonzero [OF a] by (simp add: isDouble_def na_def)
    show ?thesis
    proof (cases "ulpExponent r \<le> ulpExponent a")
      case True
      define k where "k = ulpExponent a - ulpExponent r"
      have k: "0 \<le> k" "ulpExponent a = k + ulpExponent r" using True by (simp_all add: k_def)
      have "pow2 (ulpExponent a) = of_int (2 ^ nat k) * pow2 (ulpExponent r)"
        using pow2_add [of k "ulpExponent r"] pow2_nat [OF k(1)] k(2) by simp
      with an have "a = of_int (na * 2 ^ nat k) * pow2 (ulpExponent r)" by simp
      from double_multiple [OF r this] show ?thesis .
    next
      case False
      then have lt: "ulpExponent a < ulpExponent r" by simp
      have ur: "- 1074 < ulpExponent r" using ulpExponent_spec [OF a] lt by simp
      have "ulpExponent a < 971" using ulpExponent_spec [OF r] lt by simp
      then have "\<bar>a\<bar> < pow2 (ulpExponent a + 52 + 1)" using ulpExponent_spec [OF a] by simp
      also have "\<dots> \<le> pow2 (ulpExponent r + 52)" using lt by (intro pow2_mono) simp
      finally have "\<bar>a\<bar> < pow2 (ulpExponent r + 52)" .
      from double_binade [OF r ur this] show ?thesis .
    qed
  qed
qed

text \<open>Evaluation of \<open>double\<close> on a numeral: the exponent search unfolds step by step.\<close>

lemma exponent_numeral:
  "exponent (numeral k) a =
     (if 2 \<le> a then exponent (pred_numeral k) (a / 2) + 1
      else if a < 1 then exponent (pred_numeral k) (a * 2) - 1
      else 0)"
  by (simp add: numeral_eq_Suc)

lemmas double_eval =
  double_def isDouble_def ulpExponent_def Let_def exponent_numeral pow2_def roundHalfEven_def

lemmas collide_defs =
  playerHits_def getCollisionDims_def isCollision_def map_consts double_eval

section \<open>Grid geometry\<close>

text \<open>
  Claim C8. For every row and column the grid geometry functions are functions of their
  argument alone, with \<open>getYOffsetForRow row = 45 + 83 * row\<close> and
  \<open>getXOffsetForCol col = 0 + 101 * col\<close>; row 0 is at y = 45, row 1 at y = 128,
  column 0 at x = 0 and column 1 at x = 101.
\<close>

theorem grid_geometry:
  "getYOffsetForRow r = 45 + 83 * r
   \<and> getXOffsetForCol c = 0 + 101 * c
   \<and> getYOffsetForRow 0 = 45 \<and> getYOffsetForRow 1 = 128
   \<and> getXOffsetForCol 0 = 0 \<and> getXOffsetForCol 1 = 101"
  by (simp add: getYOffsetForRow_def getXOffsetForCol_def map_consts)

section \<open>The enemy\<close>





section \<open>The player\<close>

lemma Player_reset_row_col [simp]:
  "row (Player_reset p) = 5" "col (Player_reset p) = 2"
  "movingEnabled (Player_reset p) = movingEnabled p"
  by (simp_all add: Player_reset_def Let_def map_consts)

lemma Player_reset_xy [simp]:
  "x (Player_reset p) = 202" "y (Player_reset p) = 460"
  by (simp_all add: Player_reset_def Let_def getXOffsetForCol_def getYOffsetForRow_def map_consts)

lemma onGrid_reset: "onGrid (Player_reset p)"
  by (simp add: onGrid_def map_consts)

lemma onGrid_handleInput: "onGrid p \<Longrightarrow> onGrid (handleInput k p)"
  by (simp add: onGrid_def handleInput_def map_consts)

lemma onGrid_enableMoves: "onGrid p \<Longrightarrow> onGrid (enableMoves b p)"
  by (simp add: onGrid_def enableMoves_def)

lemma onGrid_playerCalls: "onGrid p \<Longrightarrow> onGrid (playerCalls cs p)"
proof (induction cs arbitrary: p)
  case Nil
  then show ?case by simp
next
  case (Cons c cs)
  have "onGrid (applyCall c p)"
    using Cons.prems by (cases c) (simp_all add: onGrid_handleInput onGrid_enableMoves)
  then show ?case by (simp add: Cons.IH)
qed

lemma handleInput_noop:
  "\<not> movingEnabled p \<or> k \<notin> {''left'', ''right'', ''up'', ''down''} \<Longrightarrow> handleInput k p = p"
  by (auto simp add: handleInput_def)

text \<open>
  Claim C3. For every sequence of \<open>handleInput\<close> calls with arbitrary input strings,
  interleaved with any settings of the moves-enabled flag and started from \<open>reset\<close>, the
  player's row stays in [0, MAP_ROWS - 1] = [0, 5] and the column in [0, MAP_COLS - 1] =
  [0, 4]. An unrecognized input, or any input while moves are disabled, leaves row and
  column (indeed the whole player) unchanged.
\<close>

theorem handleInput_stays_on_grid:
  "0 \<le> row (playerCalls cs (Player_reset p))
   \<and> row (playerCalls cs (Player_reset p)) \<le> MAP_ROWS - 1
   \<and> 0 \<le> col (playerCalls cs (Player_reset p))
   \<and> col (playerCalls cs (Player_reset p)) \<le> MAP_COLS - 1
   \<and> MAP_ROWS - 1 = 5 \<and> MAP_COLS - 1 = 4
   \<and> (\<not> movingEnabled q \<or> k \<notin> {''left'', ''right'', ''up'', ''down''} \<longrightarrow>
        row (handleInput k q) = row q \<and> col (handleInput k q) = col q
        \<and> handleInput k q = q)"
proof -
  have "onGrid (playerCalls cs (Player_reset p))"
    by (rule onGrid_playerCalls [OF onGrid_reset])
  then show ?thesis
    using handleInput_noop [of q k] by (auto simp add: onGrid_def map_consts)
qed

theorem handleInput_stays_on_grid_witness:
  "row (playerCalls [HandleInput ''up'', HandleInput ''up'', HandleInput ''up'',
          HandleInput ''up'', HandleInput ''up'', HandleInput ''up'', HandleInput ''up'',
          HandleInput ''left'', EnableMoves False, HandleInput ''down'']
          (Player_reset newPlayer)) = 0
   \<and> col (playerCalls [HandleInput ''up'', HandleInput ''up'', HandleInput ''up'',
          HandleInput ''up'', HandleInput ''up'', HandleInput ''up'', HandleInput ''up'',
          HandleInput ''left'', EnableMoves False, HandleInput ''down'']
          (Player_reset newPlayer)) = 1
   \<and> handleInput ''jump'' newPlayer = newPlayer
   \<and> handleInput ''up'' (enableMoves False newPlayer) = enableMoves False newPlayer"
  using handleInput_stays_on_grid [of "[HandleInput ''up'', HandleInput ''up'', HandleInput ''up'',
          HandleInput ''up'', HandleInput ''up'', HandleInput ''up'', HandleInput ''up'',
          HandleInput ''left'', EnableMoves False, HandleInput ''down'']" newPlayer newPlayer "''jump''"]
     handleInput_stays_on_grid [of "[]" newPlayer "enableMoves False newPlayer" "''up''"]
  by (simp add: handleInput_def enableMoves_def newPlayer_def map_consts)

section \<open>Collision detection\<close>

lemma isCollision_iff:
  "isCollision A B \<longleftrightarrow>
     double (xPos B - width A) \<le> xPos A \<and> xPos A \<le> double (xPos B + width B)
     \<and> double (yPos B - height A) \<le> yPos A \<and> yPos A \<le> double (yPos B + height B)"
  by (auto simp add: isCollision_def Let_def)

lemma isCollision_same:
  assumes "isDouble (xPos A)" "isDouble (yPos A)" "0 \<le> width A" "0 \<le> height A"
  shows "isCollision A A"
proof -
  have "double (xPos A - width A) \<le> xPos A" "xPos A \<le> double (xPos A + width A)"
    using double_between [OF assms(1), of "xPos A - width A"]
          double_between [OF assms(1), of "xPos A + width A"] assms(3) by simp_all
  moreover have "double (yPos A - height A) \<le> yPos A" "yPos A \<le> double (yPos A + height A)"
    using double_between [OF assms(2), of "yPos A - height A"]
          double_between [OF assms(2), of "yPos A + height A"] assms(4) by simp_all
  ultimately show ?thesis by (simp add: isCollision_iff)
qed

lemma separated_bounds:
  assumes "isDouble a" "w1 < \<bar>a - b\<bar>" "w2 < \<bar>a - b\<bar>"
    and "a \<noteq> double (b + w2)" "a \<noteq> double (b - w1)"
  shows "double (b + w2) < a \<or> a < double (b - w1)"
proof (cases "b \<le> a")
  case True
  with assms(3) have "b + w2 \<le> a" by simp
  with double_between [OF assms(1), of "b + w2"] have "double (b + w2) \<le> a" by simp
  with assms(4) show ?thesis by simp
next
  case False
  with assms(2) have "a \<le> b - w1" by simp
  with double_between [OF assms(1), of "b - w1"] have "a \<le> double (b - w1)" by simp
  with assms(5) show ?thesis by simp
qed

lemma isCollision_exact:
  "exactBounds A B \<Longrightarrow>
   isCollision A B \<longleftrightarrow>
     xPos B - width A \<le> xPos A \<and> xPos A \<le> xPos B + width B
     \<and> yPos B - height A \<le> yPos A \<and> yPos A \<le> yPos B + height B"
  by (simp add: isCollision_iff exactBounds_def)

lemma isCollision_swap_exact:
  assumes "exactBounds A B" "exactBounds B A"
  shows "isCollision A B = isCollision B A"
  unfolding isCollision_exact [OF assms(1)] isCollision_exact [OF assms(2)]
  by (rule iffI; (elim conjE, intro conjI; linarith))

text \<open>
  Claim C4 says that \<open>isCollision\<close> is true for any two boxes of identical position and
  size, and false for boxes separated on one axis by more than both widths. The box of the
  player in column 1 (\<open>xPos\<close> 114) and the box of an enemy at \<open>x = 26 - 2 ^ - 47\<close>
  (\<open>xPos = 39 - 2 ^ - 47\<close>), both 75 wide and on the same row, are \<open>75 + 2 ^ - 47\<close>
  apart; the sum \<open>39 - 2 ^ - 47 + 75\<close> rounds to 114, and the test reports a collision.
  A box of negative width does not collide with itself.
\<close>

theorem isCollision_separated_counterexample:
  "(75 :: real) < \<bar>114 - (39 - 1 / 2 ^ 47)\<bar>
   \<and> isDouble (39 - 1 / 2 ^ 47)
   \<and> double (39 - 1 / 2 ^ 47 + 75) = 114
   \<and> isCollision \<lparr>xPos = 114, yPos = 141, width = 75, height = 57\<rparr>
                 \<lparr>xPos = 39 - 1 / 2 ^ 47, yPos = 141, width = 75, height = 57\<rparr>
   \<and> \<not> isCollision \<lparr>xPos = 13, yPos = 141, width = - 75, height = 57\<rparr>
                   \<lparr>xPos = 13, yPos = 141, width = - 75, height = 57\<rparr>"
  by (simp add: isCollision_def double_eval)

text \<open>
  Claim C4, amended. \<open>isCollision A B\<close> holds iff there is overlap on both axes, where no
  overlap on x means \<open>xPos A > xPos B + width B\<close> or \<open>xPos A < xPos B - width A\<close>, the sum
  and the difference being rounded to doubles as the code computes them, and no overlap on y
  is the same test with \<open>yPos\<close> and \<open>height\<close>. It holds for two boxes of identical position
  and size when the width and the height are not negative. It fails for boxes whose distance
  on one axis is larger than both widths (or both heights), except when the coordinate of
  \<open>A\<close> is equal to one of the two rounded bounds, which happens only when the distance
  exceeds a width by less than the rounding step of the sum. (The coordinates are doubles.)
\<close>

theorem isCollision_spec:
  "(isCollision A B \<longleftrightarrow>
      \<not> (xPos A > double (xPos B + width B) \<or> xPos A < double (xPos B - width A))
      \<and> \<not> (yPos A > double (yPos B + height B) \<or> yPos A < double (yPos B - height A)))
   \<and> (isDouble (xPos A) \<and> isDouble (yPos A) \<and> 0 \<le> width A \<and> 0 \<le> height A \<longrightarrow>
        isCollision A A)
   \<and> (isDouble (xPos A)
        \<and> \<bar>xPos A - xPos B\<bar> > width A \<and> \<bar>xPos A - xPos B\<bar> > width B
        \<and> xPos A \<noteq> double (xPos B + width B) \<and> xPos A \<noteq> double (xPos B - width A) \<longrightarrow>
        \<not> isCollision A B)
   \<and> (isDouble (yPos A)
        \<and> \<bar>yPos A - yPos B\<bar> > height A \<and> \<bar>yPos A - yPos B\<bar> > height B
        \<and> yPos A \<noteq> double (yPos B + height B) \<and> yPos A \<noteq> double (yPos B - height A) \<longrightarrow>
        \<not> isCollision A B)"
proof -
  have one: "isCollision A B \<longleftrightarrow>
      \<not> (xPos A > double (xPos B + width B) \<or> xPos A < double (xPos B - width A))
      \<and> \<not> (yPos A > double (yPos B + height B) \<or> yPos A < double (yPos B - height A))"
    by (simp add: isCollision_def Let_def)
  have two: "isDouble (xPos A) \<and> isDouble (yPos A) \<and> 0 \<le> width A \<and> 0 \<le> height A \<longrightarrow>
      isCollision A A"
    using isCollision_same [of A] by blast
  have three: "isDouble (xPos A)
      \<and> \<bar>xPos A - xPos B\<bar> > width A \<and> \<bar>xPos A - xPos B\<bar> > width B
      \<and> xPos A \<noteq> double (xPos B + width B) \<and> xPos A \<noteq> double (xPos B - width A) \<longrightarrow>
      \<not> isCollision A B"
    using separated_bounds [of "xPos A" "width A" "xPos B" "width B"]
    unfolding isCollision_iff by auto
  have four: "isDouble (yPos A)
      \<and> \<bar>yPos A - yPos B\<bar> > height A \<and> \<bar>yPos A - yPos B\<bar> > height B
      \<and> yPos A \<noteq> double (yPos B + height B) \<and> yPos A \<noteq> double (yPos B - height A) \<longrightarrow>
      \<not> isCollision A B"
    using separated_bounds [of "yPos A" "height A" "yPos B" "height B"]
    unfolding isCollision_iff by auto
  from one two three four show ?thesis by blast
qed

theorem isCollision_spec_witness:
  "isDouble 13 \<and> isDouble 141
   \<and> isCollision \<lparr>xPos = 13, yPos = 141, width = 75, height = 57\<rparr>
                 \<lparr>xPos = 13, yPos = 141, width = 75, height = 57\<rparr>
   \<and> \<not> isCollision \<lparr>xPos = 13, yPos = 141, width = 75, height = 57\<rparr>
                   \<lparr>xPos = 114, yPos = 141, width = 75, height = 57\<rparr>
   \<and> \<not> isCollision \<lparr>xPos = 13, yPos = 141, width = 75, height = 57\<rparr>
                   \<lparr>xPos = 13, yPos = 224, width = 75, height = 57\<rparr>"
proof -
  have d: "isDouble 13" "isDouble 141" by (simp_all add: double_eval)
  have e: "double (114 + 75) = 189" "double (114 - 75) = 39"
    "double (224 + 57) = 281" "double (224 - 57) = 167"
    by (simp_all add: double_eval)
  show ?thesis
    using d e
      isCollision_spec [of "\<lparr>xPos = 13, yPos = 141, width = 75, height = 57\<rparr>"
                           "\<lparr>xPos = 13, yPos = 141, width = 75, height = 57\<rparr>"]
      isCollision_spec [of "\<lparr>xPos = 13, yPos = 141, width = 75, height = 57\<rparr>"
                           "\<lparr>xPos = 114, yPos = 141, width = 75, height = 57\<rparr>"]
      isCollision_spec [of "\<lparr>xPos = 13, yPos = 141, width = 75, height = 57\<rparr>"
                           "\<lparr>xPos = 13, yPos = 224, width = 75, height = 57\<rparr>"]
    by simp
qed

text \<open>
  Claim C10 says that \<open>isCollision A B = isCollision B A\<close> whenever the two rectangles have
  equal width and equal height. The box of the player in column 3 on row 2 (\<open>xPos\<close> 316)
  and the box of an enemy at \<open>x = 228 - 2 ^ - 45\<close> on the same row have the same size,
  75 by 57. The sum \<open>241 - 2 ^ - 45 + 75\<close> rounds to 316, so the player's box is not right
  of the enemy's; the difference \<open>316 - 75 = 241\<close> is exact, so the enemy's box is left
  of the player's. The two calls differ.
\<close>

theorem isCollision_equal_size_counterexample:
  "isDouble (241 - 1 / 2 ^ 45)
   \<and> isCollision \<lparr>xPos = 316, yPos = 224, width = 75, height = 57\<rparr>
                 \<lparr>xPos = 241 - 1 / 2 ^ 45, yPos = 224, width = 75, height = 57\<rparr>
   \<and> \<not> isCollision \<lparr>xPos = 241 - 1 / 2 ^ 45, yPos = 224, width = 75, height = 57\<rparr>
                   \<lparr>xPos = 316, yPos = 224, width = 75, height = 57\<rparr>"
  by (simp add: isCollision_def double_eval)

text \<open>
  Claim C10, amended. \<open>isCollision\<close> is not commutative: there are rectangles of unequal
  width, and also rectangles of equal width and equal height, on which \<open>isCollision A B\<close>
  and \<open>isCollision B A\<close> differ. The two calls agree whenever none of the sums and
  differences that they compare is changed by rounding, whatever the widths and heights.
\<close>

theorem isCollision_commutes_when_exact:
  "isCollision \<lparr>xPos = 114, yPos = 141, width = 80, height = 57\<rparr>
               \<lparr>xPos = 39 - 1 / 2 ^ 47, yPos = 141, width = 75, height = 57\<rparr>
   \<and> \<not> isCollision \<lparr>xPos = 39 - 1 / 2 ^ 47, yPos = 141, width = 75, height = 57\<rparr>
                   \<lparr>xPos = 114, yPos = 141, width = 80, height = 57\<rparr>
   \<and> isCollision \<lparr>xPos = 114, yPos = 141, width = 75, height = 57\<rparr>
                 \<lparr>xPos = 39 - 1 / 2 ^ 47, yPos = 141, width = 75, height = 57\<rparr>
   \<and> \<not> isCollision \<lparr>xPos = 39 - 1 / 2 ^ 47, yPos = 141, width = 75, height = 57\<rparr>
                   \<lparr>xPos = 114, yPos = 141, width = 75, height = 57\<rparr>
   \<and> (exactBounds A B \<and> exactBounds B A \<longrightarrow> isCollision A B = isCollision B A)"
proof -
  have differ: "isCollision \<lparr>xPos = 114, yPos = 141, width = 80, height = 57\<rparr>
               \<lparr>xPos = 39 - 1 / 2 ^ 47, yPos = 141, width = 75, height = 57\<rparr>
   \<and> \<not> isCollision \<lparr>xPos = 39 - 1 / 2 ^ 47, yPos = 141, width = 75, height = 57\<rparr>
                   \<lparr>xPos = 114, yPos = 141, width = 80, height = 57\<rparr>
   \<and> isCollision \<lparr>xPos = 114, yPos = 141, width = 75, height = 57\<rparr>
                 \<lparr>xPos = 39 - 1 / 2 ^ 47, yPos = 141, width = 75, height = 57\<rparr>
   \<and> \<not> isCollision \<lparr>xPos = 39 - 1 / 2 ^ 47, yPos = 141, width = 75, height = 57\<rparr>
                   \<lparr>xPos = 114, yPos = 141, width = 75, height = 57\<rparr>"
    by (simp add: isCollision_def double_eval)
  from differ isCollision_swap_exact [of A B] show ?thesis by blast
qed

theorem isCollision_commutes_when_exact_witness:
  "exactBounds \<lparr>xPos = 13, yPos = 141, width = 75, height = 57\<rparr>
               \<lparr>xPos = 50, yPos = 160, width = 30, height = 20\<rparr>
   \<and> exactBounds \<lparr>xPos = 50, yPos = 160, width = 30, height = 20\<rparr>
                 \<lparr>xPos = 13, yPos = 141, width = 75, height = 57\<rparr>
   \<and> isCollision \<lparr>xPos = 13, yPos = 141, width = 75, height = 57\<rparr>
                 \<lparr>xPos = 50, yPos = 160, width = 30, height = 20\<rparr>
   \<and> isCollision \<lparr>xPos = 50, yPos = 160, width = 30, height = 20\<rparr>
                 \<lparr>xPos = 13, yPos = 141, width = 75, height = 57\<rparr>"
proof -
  have e: "exactBounds \<lparr>xPos = 13, yPos = 141, width = 75, height = 57\<rparr>
               \<lparr>xPos = 50, yPos = 160, width = 30, height = 20\<rparr>"
    "exactBounds \<lparr>xPos = 50, yPos = 160, width = 30, height = 20\<rparr>
                 \<lparr>xPos = 13, yPos = 141, width = 75, height = 57\<rparr>"
    by (simp_all add: exactBounds_def double_eval)
  have c: "isCollision \<lparr>xPos = 13, yPos = 141, width = 75, height = 57\<rparr>
                 \<lparr>xPos = 50, yPos = 160, width = 30, height = 20\<rparr>"
    by (simp add: isCollision_exact [OF e(1)])
  show ?thesis
    using e c
      isCollision_commutes_when_exact [of "\<lparr>xPos = 13, yPos = 141, width = 75, height = 57\<rparr>"
                                          "\<lparr>xPos = 50, yPos = 160, width = 30, height = 20\<rparr>"]
    by simp
qed

section \<open>The scoreboard's update\<close>

lemma enableMoves_fields [simp]:
  "row (enableMoves b p) = row p" "col (enableMoves b p) = col p"
  "x (enableMoves b p) = x p" "y (enableMoves b p) = y p"
  "movingEnabled (enableMoves b p) = b"
  by (simp_all add: enableMoves_def)

lemma setTimeout_fields [simp]:
  "player (setTimeout f ms w) = player w"
  "scoreboard (setTimeout f ms w) = scoreboard w"
  "bonusItems (setTimeout f ms w) = bonusItems w"
  "allEnemies (setTimeout f ms w) = allEnemies w"
  by (simp_all add: setTimeout_def)

lemma setInterval_fields [simp]:
  "player (setInterval f ms w) = player w"
  "scoreboard (setInterval f ms w) = scoreboard w"
  "bonusItems (setInterval f ms w) = bonusItems w"
  "allEnemies (setInterval f ms w) = allEnemies w"
  by (simp_all add: setInterval_def)

lemma clearInterval_fields [simp]:
  "player (clearInterval i w) = player w"
  "scoreboard (clearInterval i w) = scoreboard w"
  "bonusItems (clearInterval i w) = bonusItems w"
  "allEnemies (clearInterval i w) = allEnemies w"
  by (simp_all add: clearInterval_def)

lemma endState_fields [simp]:
  "player (endLoseState w) = player w" "scoreboard (endLoseState w) = scoreboard w"
  "bonusItems (endLoseState w) = bonusItems w" "allEnemies (endLoseState w) = allEnemies w"
  "player (endBonusState w) = player w" "scoreboard (endBonusState w) = scoreboard w"
  "bonusItems (endBonusState w) = bonusItems w" "allEnemies (endBonusState w) = allEnemies w"
  "player (endWinState w) = player w" "scoreboard (endWinState w) = scoreboard w"
  "bonusItems (endWinState w) = bonusItems w" "allEnemies (endWinState w) = allEnemies w"
  by (simp_all add: endLoseState_def endBonusState_def endWinState_def)

lemma enemyLoop_hit:
  "\<exists>e \<in> set es. isCollision pd (getCollisionDims e) \<Longrightarrow>
   enemyLoop pd es w =
     endLoseState (w\<lparr>scoreboard := (scoreboard w)\<lparr>score := score (scoreboard w) - 1, lost := True\<rparr>,
                     player := enableMoves False (Player_reset (player w))\<rparr>)"
  by (induction es) (auto simp add: Let_def)

lemma enemyLoop_miss:
  "\<not> (\<exists>e \<in> set es. isCollision pd (getCollisionDims e)) \<Longrightarrow> enemyLoop pd es w = w"
  by (induction es) auto

lemma bonusLoop_hit:
  "\<exists>b \<in> set bs. isCollision pd (getCollisionDims b) \<Longrightarrow>
   bonusLoop pd bs w =
     endBonusState (w\<lparr>scoreboard := (scoreboard w)\<lparr>score := score (scoreboard w) + 1, bonus := True\<rparr>,
                      bonusItems := []\<rparr>)"
  by (induction bs) (auto simp add: Let_def)

lemma bonusLoop_miss:
  "\<not> (\<exists>b \<in> set bs. isCollision pd (getCollisionDims b)) \<Longrightarrow> bonusLoop pd bs w = w"
  by (induction bs) auto

lemma update_cases:
  assumes "running (scoreboard w)" "0 < row (player w)"
  shows "Scoreboard_update w =
    (let pd = getCollisionDims (player w);
         w1 = (if playerHits w (allEnemies w)
               then endLoseState (w\<lparr>scoreboard := (scoreboard w)\<lparr>score := score (scoreboard w) - 1, lost := True\<rparr>,
                     player := enableMoves False (Player_reset (player w))\<rparr>)
               else w)
     in if playerHits w (bonusItems w)
        then endBonusState (w1\<lparr>scoreboard := (scoreboard w1)\<lparr>score := score (scoreboard w1) + 1, bonus := True\<rparr>,
                      bonusItems := []\<rparr>)
        else w1)"
  using assms
  by (simp add: Scoreboard_update_def checkWinAndCollision_def Let_def playerHits_def
        enemyLoop_hit enemyLoop_miss bonusLoop_hit bonusLoop_miss)

section \<open>Starting and ending a game\<close>

lemma spawnEnemies_length:
  "length (allEnemies (spawnEnemies i rnd w)) = length (allEnemies w) + (7 - i)"
proof (induction i rnd w rule: spawnEnemies.induct)
  case (1 i rnd w)
  show ?case
  proof (cases "i < 7")
    case True
    then show ?thesis using "1.IH" by (subst spawnEnemies.simps) simp
  next
    case False
    then show ?thesis by (subst spawnEnemies.simps) simp
  qed
qed

lemma spawnEnemies_others [simp]:
  "player (spawnEnemies i rnd w) = player w"
  "scoreboard (spawnEnemies i rnd w) = scoreboard w"
  "bonusItems (spawnEnemies i rnd w) = bonusItems w"
  "timers (spawnEnemies i rnd w) = timers w"
  "nextTimerId (spawnEnemies i rnd w) = nextTimerId w"
proof (induction i rnd w rule: spawnEnemies.induct)
  case (1 i rnd w)
  {
    case 1 show ?case using "1.IH"(1) by (subst spawnEnemies.simps) simp
  next
    case 2 show ?case using "1.IH"(2) by (subst spawnEnemies.simps) simp
  next
    case 3 show ?case using "1.IH"(3) by (subst spawnEnemies.simps) simp
  next
    case 4 show ?case using "1.IH"(4) by (subst spawnEnemies.simps) simp
  next
    case 5 show ?case using "1.IH"(5) by (subst spawnEnemies.simps) simp
  }
qed

lemma startGame_fields:
  "scoreboard (startGame rnd w) =
     (scoreboard w)\<lparr>running := True, currentTime := GAME_TIME, gameOver := False\<rparr>"
  "player (startGame rnd w) = enableMoves True (player w)"
  "bonusItems (startGame rnd w) = bonusItems w"
  "length (allEnemies (startGame rnd w)) = length (allEnemies w) + 7"
  "timers (startGame rnd w) =
     timers w @ [\<lparr>tid = nextTimerId w, cb = CountdownTick, delay = 1000, repeating = True\<rparr>,
                 \<lparr>tid = nextTimerId w + 1, cb = BonusSpawnTick, delay = 6000, repeating = True\<rparr>]"
  by (simp_all add: startGame_def Let_def countdown_def manageBonusItems_def
        spawnEnemies_length setInterval_def)

lemma handleGameOver_fields:
  "scoreboard (handleGameOver w) = (scoreboard w)\<lparr>running := False, gameOver := True\<rparr>"
  "player (handleGameOver w) = Player_reset (enableMoves False (player w))"
  "bonusItems (handleGameOver w) = []"
  "allEnemies (handleGameOver w) = []"
  "timers (handleGameOver w) = timers w"
  "nextTimerId (handleGameOver w) = nextTimerId w"
  by (simp_all add: handleGameOver_def Let_def)

text \<open>
  Claim C6. \<open>startGame\<close>, called when no enemy is in \<open>allEnemies\<close> (the idle state and the
  game-over state), leaves exactly 7 enemies there, sets the clock to the full game time of
  60 seconds, clears the game-over flag, enables the player's moves and sets the game
  running. \<open>handleGameOver\<close> stops the game, disables the moves, resets the player, sets
  the game-over flag and leaves no enemy and no bonus item.
\<close>

theorem startGame_handleGameOver:
  assumes "allEnemies w = []"
  shows "length (allEnemies (startGame rnd w)) = 7
         \<and> currentTime (scoreboard (startGame rnd w)) = GAME_TIME \<and> GAME_TIME = 60
         \<and> \<not> gameOver (scoreboard (startGame rnd w))
         \<and> movingEnabled (player (startGame rnd w))
         \<and> running (scoreboard (startGame rnd w))
         \<and> \<not> running (scoreboard (handleGameOver v))
         \<and> \<not> movingEnabled (player (handleGameOver v))
         \<and> player (handleGameOver v) = Player_reset (enableMoves False (player v))
         \<and> row (player (handleGameOver v)) = 5 \<and> col (player (handleGameOver v)) = 2
         \<and> gameOver (scoreboard (handleGameOver v))
         \<and> allEnemies (handleGameOver v) = []
         \<and> bonusItems (handleGameOver v) = []"
  using assms by (simp add: startGame_fields handleGameOver_fields GAME_TIME_def)

theorem startGame_handleGameOver_witness:
  "allEnemies initialWorld = []
   \<and> length (allEnemies (startGame (\<lambda>n. 1 / 2) initialWorld)) = 7
   \<and> currentTime (scoreboard (startGame (\<lambda>n. 1 / 2) initialWorld)) = 60
   \<and> movingEnabled (player (startGame (\<lambda>n. 1 / 2) initialWorld))
   \<and> allEnemies (handleGameOver (startGame (\<lambda>n. 1 / 2) initialWorld)) = []
   \<and> bonusItems (handleGameOver (startGame (\<lambda>n. 1 / 2) initialWorld)) = []"
proof -
  have e: "allEnemies initialWorld = []" by (simp add: initialWorld_def)
  show ?thesis
    using e startGame_handleGameOver [OF e, of "\<lambda>n. 1 / 2" "startGame (\<lambda>n. 1 / 2) initialWorld"]
    by simp
qed

section \<open>Reaching the water\<close>

text \<open>
  Claim C1. While the game is running, if the player's row is at most 0 when the
  scoreboard's update starts, then that update increments the score by exactly 1, sets the
  \<open>won\<close> flag, disables the player's moves and puts the player back on row
  \<open>MAP_ROWS - 1 = 5\<close> and column \<open>floor (MAP_COLS / 2) = 2\<close>, with the pixel position of
  that cell.
\<close>

theorem win_update:
  assumes "running (scoreboard w)" "row (player w) \<le> 0"
  shows "score (scoreboard (Scoreboard_update w)) = score (scoreboard w) + 1
         \<and> won (scoreboard (Scoreboard_update w))
         \<and> \<not> movingEnabled (player (Scoreboard_update w))
         \<and> row (player (Scoreboard_update w)) = MAP_ROWS - 1
         \<and> row (player (Scoreboard_update w)) = 5
         \<and> col (player (Scoreboard_update w)) = \<lfloor>of_int MAP_COLS / (2 :: real)\<rfloor>
         \<and> col (player (Scoreboard_update w)) = 2
         \<and> x (player (Scoreboard_update w)) = getXOffsetForCol 2
         \<and> y (player (Scoreboard_update w)) = getYOffsetForRow 5"
  using assms
  by (simp add: Scoreboard_update_def checkWinAndCollision_def Let_def endWinState_def
        getXOffsetForCol_def getYOffsetForRow_def map_consts)

theorem win_update_witness:
  "running (scoreboard ((startGame (\<lambda>n. 1 / 2) initialWorld)
       \<lparr>player := (player (startGame (\<lambda>n. 1 / 2) initialWorld))\<lparr>row := 0\<rparr>\<rparr>))
   \<and> score (scoreboard (Scoreboard_update ((startGame (\<lambda>n. 1 / 2) initialWorld)
       \<lparr>player := (player (startGame (\<lambda>n. 1 / 2) initialWorld))\<lparr>row := 0\<rparr>\<rparr>))) = 1
   \<and> won (scoreboard (Scoreboard_update ((startGame (\<lambda>n. 1 / 2) initialWorld)
       \<lparr>player := (player (startGame (\<lambda>n. 1 / 2) initialWorld))\<lparr>row := 0\<rparr>\<rparr>)))
   \<and> row (player (Scoreboard_update ((startGame (\<lambda>n. 1 / 2) initialWorld)
       \<lparr>player := (player (startGame (\<lambda>n. 1 / 2) initialWorld))\<lparr>row := 0\<rparr>\<rparr>))) = 5
   \<and> col (player (Scoreboard_update ((startGame (\<lambda>n. 1 / 2) initialWorld)
       \<lparr>player := (player (startGame (\<lambda>n. 1 / 2) initialWorld))\<lparr>row := 0\<rparr>\<rparr>))) = 2"
  using win_update [of "(startGame (\<lambda>n. 1 / 2) initialWorld)
       \<lparr>player := (player (startGame (\<lambda>n. 1 / 2) initialWorld))\<lparr>row := 0\<rparr>\<rparr>"]
  by (simp add: startGame_fields initialWorld_def newScoreboard_def)

section \<open>Enemies and bonus items\<close>

text \<open>
  Claim C7 says that an update in which the player (on a row above 0, game running) hits an
  enemy decrements the score by exactly 1. In \<open>sceneRow1\<close> the player hits an enemy and
  stands on a bonus item: the enemy loop takes one point, the bonus loop, which runs after
  it with the same \<open>playerDims\<close>, gives one back, and the update leaves the score at 0.
\<close>

theorem hazard_hit_score_counterexample:
  "running (scoreboard sceneRow1) \<and> 0 < row (player sceneRow1)
   \<and> playerHits sceneRow1 (allEnemies sceneRow1)
   \<and> score (scoreboard sceneRow1) = 0
   \<and> score (scoreboard (Scoreboard_update sceneRow1)) = 0"
  by (simp add: sceneRow1_def Scoreboard_update_def checkWinAndCollision_def collide_defs
        endLoseState_def endBonusState_def)

text \<open>
  Claim C7, amended. While the game is running and the player's row is above 0, an update in
  which the player's collision box intersects the box of at least one enemy sets the \<open>lost\<close>
  flag, resets the player to the start cell and disables the moves. The enemy branch takes
  exactly one point, however many enemies are hit: the update leaves the score one lower if
  the player's box (as it was before the reset) meets no bonus item, and unchanged if it
  meets one, since the bonus branch of the same update then adds a point.
\<close>

theorem hazard_hit:
  assumes "running (scoreboard w)" "0 < row (player w)" "playerHits w (allEnemies w)"
  shows "lost (scoreboard (Scoreboard_update w))
         \<and> player (Scoreboard_update w) = enableMoves False (Player_reset (player w))
         \<and> row (player (Scoreboard_update w)) = 5 \<and> col (player (Scoreboard_update w)) = 2
         \<and> \<not> movingEnabled (player (Scoreboard_update w))
         \<and> (\<not> playerHits w (bonusItems w) \<longrightarrow>
               score (scoreboard (Scoreboard_update w)) = score (scoreboard w) - 1)
         \<and> (playerHits w (bonusItems w) \<longrightarrow>
               score (scoreboard (Scoreboard_update w)) = score (scoreboard w))"
  using assms(3) by (simp add: update_cases [OF assms(1,2)] Let_def)

theorem hazard_hit_witness:
  "playerHits (sceneRow1\<lparr>bonusItems := []\<rparr>) (allEnemies (sceneRow1\<lparr>bonusItems := []\<rparr>))
   \<and> score (scoreboard (Scoreboard_update (sceneRow1\<lparr>bonusItems := []\<rparr>))) = - 1
   \<and> lost (scoreboard (Scoreboard_update (sceneRow1\<lparr>bonusItems := []\<rparr>)))
   \<and> \<not> movingEnabled (player (Scoreboard_update (sceneRow1\<lparr>bonusItems := []\<rparr>)))
   \<and> row (player (Scoreboard_update (sceneRow1\<lparr>bonusItems := []\<rparr>))) = 5"
  using hazard_hit [of "sceneRow1\<lparr>bonusItems := []\<rparr>"]
  by (simp add: sceneRow1_def collide_defs)

text \<open>
  Claim C5 says that the bonus test is made only if the player neither reached the water nor
  hit an enemy in the same update, and that a bonus hit does not come with disabled moves.
  In \<open>sceneRow2\<close> the player hits the second enemy and stands on the bonus item: the update
  sets \<open>lost\<close>, and still sets \<open>bonus\<close> and empties \<open>bonusItems\<close>; the score is back at
  its old value and the moves, enabled before, are disabled.
\<close>

theorem bonus_after_hazard_counterexample:
  "running (scoreboard sceneRow2) \<and> 0 < row (player sceneRow2)
   \<and> playerHits sceneRow2 (allEnemies sceneRow2)
   \<and> \<not> bonus (scoreboard sceneRow2) \<and> bonusItems sceneRow2 = [\<lparr>x = 303, y = 211\<rparr>]
   \<and> lost (scoreboard (Scoreboard_update sceneRow2))
   \<and> bonus (scoreboard (Scoreboard_update sceneRow2))
   \<and> bonusItems (Scoreboard_update sceneRow2) = []
   \<and> score (scoreboard (Scoreboard_update sceneRow2)) = score (scoreboard sceneRow2)
   \<and> movingEnabled (player sceneRow2)
   \<and> \<not> movingEnabled (player (Scoreboard_update sceneRow2))"
  by (simp add: sceneRow2_def Scoreboard_update_def checkWinAndCollision_def collide_defs
        endLoseState_def endBonusState_def)

text \<open>
  Claim C5, amended. Within one update of a running game the bonus test is made exactly when
  the player has not reached the water (row above 0), whether or not an enemy was hit
  before it in the same update. If the player reached the water, or meets no bonus item, the
  \<open>bonus\<close> flag and \<open>bonusItems\<close> are unchanged. On a bonus hit the \<open>bonus\<close> flag is set
  and \<open>bonusItems\<close> is emptied; if no enemy was hit the score is one higher and the player
  (the moves flag included) is unchanged, and if an enemy was hit too the score is back at
  its old value and the moves are disabled by the enemy branch.
\<close>

theorem bonus_test:
  assumes "running (scoreboard w)"
  shows "(row (player w) \<le> 0 \<longrightarrow>
            bonus (scoreboard (Scoreboard_update w)) = bonus (scoreboard w)
            \<and> bonusItems (Scoreboard_update w) = bonusItems w)
         \<and> (0 < row (player w) \<and> \<not> playerHits w (bonusItems w) \<longrightarrow>
            bonus (scoreboard (Scoreboard_update w)) = bonus (scoreboard w)
            \<and> bonusItems (Scoreboard_update w) = bonusItems w)
         \<and> (0 < row (player w) \<and> playerHits w (bonusItems w) \<longrightarrow>
            bonus (scoreboard (Scoreboard_update w))
            \<and> bonusItems (Scoreboard_update w) = []
            \<and> (if playerHits w (allEnemies w)
                then score (scoreboard (Scoreboard_update w)) = score (scoreboard w)
                     \<and> \<not> movingEnabled (player (Scoreboard_update w))
                else score (scoreboard (Scoreboard_update w)) = score (scoreboard w) + 1
                     \<and> player (Scoreboard_update w) = player w))"
proof -
  have goal: "row (player w) \<le> 0 \<Longrightarrow>
      bonus (scoreboard (Scoreboard_update w)) = bonus (scoreboard w)
      \<and> bonusItems (Scoreboard_update w) = bonusItems w"
    using assms by (simp add: Scoreboard_update_def checkWinAndCollision_def Let_def)
  have rest: "0 < row (player w) \<Longrightarrow> ?thesis"
    by (simp add: update_cases [OF assms] Let_def)
  from goal rest show ?thesis by (cases "row (player w) \<le> 0") simp_all
qed

theorem bonus_test_witness:
  "playerHits (sceneRow2\<lparr>allEnemies := [\<lparr>x = - 101, y = 128, speed = 75\<rparr>]\<rparr>)
     (bonusItems (sceneRow2\<lparr>allEnemies := [\<lparr>x = - 101, y = 128, speed = 75\<rparr>]\<rparr>))
   \<and> score (scoreboard (Scoreboard_update
       (sceneRow2\<lparr>allEnemies := [\<lparr>x = - 101, y = 128, speed = 75\<rparr>]\<rparr>))) = 5
   \<and> bonus (scoreboard (Scoreboard_update
       (sceneRow2\<lparr>allEnemies := [\<lparr>x = - 101, y = 128, speed = 75\<rparr>]\<rparr>)))
   \<and> bonusItems (Scoreboard_update
       (sceneRow2\<lparr>allEnemies := [\<lparr>x = - 101, y = 128, speed = 75\<rparr>]\<rparr>)) = []
   \<and> movingEnabled (player (Scoreboard_update
       (sceneRow2\<lparr>allEnemies := [\<lparr>x = - 101, y = 128, speed = 75\<rparr>]\<rparr>)))"
  using bonus_test [of "sceneRow2\<lparr>allEnemies := [\<lparr>x = - 101, y = 128, speed = 75\<rparr>]\<rparr>"]
  by (simp add: sceneRow2_def collide_defs)

section \<open>The countdown\<close>

lemma find_cleared: "find (\<lambda>t. tid t = i) (filter (\<lambda>t. tid t \<noteq> i) ts) = None"
  by (induction ts) auto

lemma not_pending_clearInterval: "\<not> pending i (clearInterval i w)"
  by (simp add: pending_def clearInterval_def find_cleared)

lemma fire_not_pending: "\<not> pending i w \<Longrightarrow> fire rnd i w = w"
  by (simp add: pending_def fire_def)

lemma fires_not_pending: "\<not> pending i w \<Longrightarrow> fires n rnd i w = w"
  by (induction n) (simp_all add: fire_not_pending)

lemma fire_countdown:
  assumes "find (\<lambda>t. tid t = i) (timers w) = Some t" "cb t = CountdownTick" "repeating t"
  shows "fire rnd i w = countdownTick i w"
  using assms by (simp add: fire_def)

lemma countdownTick_zero:
  "currentTime (scoreboard w) = 0 \<Longrightarrow> countdownTick i w = handleGameOver (clearInterval i w)"
  by (simp add: countdownTick_def)

lemma countdownTick_nonzero:
  "currentTime (scoreboard w) \<noteq> 0 \<Longrightarrow>
   countdownTick i w = w\<lparr>scoreboard := (scoreboard w)\<lparr>currentTime := currentTime (scoreboard w) - 1\<rparr>\<rparr>"
  by (simp add: countdownTick_def)

lemma pending_handleGameOver: "pending i (handleGameOver w) = pending i w"
  by (simp add: pending_def handleGameOver_fields)

lemma countdown_fires:
  assumes "find (\<lambda>t. tid t = i) (timers w) = Some t" "cb t = CountdownTick" "repeating t"
    and "currentTime (scoreboard w) = int n" "k \<le> n"
  shows "fires k rnd i w = w\<lparr>scoreboard := (scoreboard w)\<lparr>currentTime := int n - int k\<rparr>\<rparr>"
  using assms
proof (induction k arbitrary: w n)
  case 0
  then show ?case by simp
next
  case (Suc k)
  let ?w1 = "w\<lparr>scoreboard := (scoreboard w)\<lparr>currentTime := int n - 1\<rparr>\<rparr>"
  from Suc.prems obtain m where n: "n = Suc m" by (cases n) auto
  have nz: "currentTime (scoreboard w) \<noteq> 0" using Suc.prems n by simp
  have f1: "fire rnd i w = ?w1"
    using fire_countdown [OF Suc.prems(1,2,3)] countdownTick_nonzero [OF nz] Suc.prems(4)
    by simp
  have t1: "find (\<lambda>t. tid t = i) (timers ?w1) = Some t" using Suc.prems(1) by simp
  have c1: "currentTime (scoreboard ?w1) = int m" using n by simp
  have km: "k \<le> m" using Suc.prems(5) n by simp
  have "fires k rnd i ?w1 = ?w1\<lparr>scoreboard := (scoreboard ?w1)\<lparr>currentTime := int m - int k\<rparr>\<rparr>"
    by (rule Suc.IH [OF t1 Suc.prems(2,3) c1 km])
  then show ?case using f1 n by simp
qed

lemma fires_add: "fires (m + n) rnd i w = fires n rnd i (fires m rnd i w)"
  by (induction m arbitrary: w) simp_all

text \<open>The tick of the bonus interval is the one that tests the running flag: when the game
  is not running it clears its interval and the bonus items.\<close>

lemma bonusSpawnTick_stopped:
  assumes "find (\<lambda>t. tid t = i) (timers w) = Some t" "cb t = BonusSpawnTick" "repeating t"
    and "\<not> running (scoreboard w)"
  shows "fire rnd i w = (clearInterval i w)\<lparr>bonusItems := []\<rparr> \<and> \<not> pending i (fire rnd i w)"
  using assms
  by (simp add: fire_def bonusSpawnTick_def Let_def pending_def clearInterval_def find_cleared)

subsection \<open>Invariants of the reachable states\<close>

lemma timers_simps [simp]:
  "timers (clearInterval i w) = filter (\<lambda>t. tid t \<noteq> i) (timers w)"
  "timers (setTimeout f ms w) =
     timers w @ [\<lparr>tid = nextTimerId w, cb = f, delay = ms, repeating = False\<rparr>]"
  "timers (setInterval f ms w) =
     timers w @ [\<lparr>tid = nextTimerId w, cb = f, delay = ms, repeating = True\<rparr>]"
  by (simp_all add: clearInterval_def setTimeout_def setInterval_def)

lemma countdownPending_clearInterval:
  "countdownPending (clearInterval i w) \<Longrightarrow> countdownPending w"
  by (auto simp add: countdownPending_def)

lemma gameIsOver_moves: "gameIsOver w \<Longrightarrow> \<not> movingEnabled (player w)"
proof -
  assume "gameIsOver w"
  then have "player w = Player_reset (enableMoves False (player w))" by (simp add: gameIsOver_def)
  then have "movingEnabled (player w) = movingEnabled (Player_reset (enableMoves False (player w)))"
    by simp
  then show ?thesis by simp
qed

lemma Player_reset_idem:
  "Player_reset (enableMoves False (Player_reset (enableMoves False p)))
     = Player_reset (enableMoves False p)"
  by (simp add: Player_reset_def enableMoves_def Let_def)

lemma Player_update_reset: "Player_update (Player_reset p) = Player_reset p"
  by (simp add: Player_update_def Player_reset_def Let_def)

lemma gameIsOver_handleGameOver:
  "currentTime (scoreboard w) = 0 \<Longrightarrow> gameIsOver (handleGameOver w)"
  by (simp add: gameIsOver_def handleGameOver_fields Player_reset_idem)

lemma handleGameOver_noop:
  assumes "gameIsOver w" "\<not> running (scoreboard w)"
  shows "handleGameOver w = w"
proof -
  have p: "Player_reset (enableMoves False (player w)) = player w"
    using assms(1) by (simp add: gameIsOver_def)
  have s: "(scoreboard w)\<lparr>running := False, gameOver := True\<rparr> = scoreboard w"
    using assms by (simp add: gameIsOver_def)
  have l: "allEnemies w = []" "bonusItems w = []" using assms(1) by (simp_all add: gameIsOver_def)
  show ?thesis
    by (rule world.equality) (simp_all add: handleGameOver_fields p s l)
qed

lemma running_update:
  "running (scoreboard (Scoreboard_update w)) = running (scoreboard w)"
proof (cases "running (scoreboard w)")
  case False
  then show ?thesis by (simp add: Scoreboard_update_def checkWinAndCollision_def)
next
  case True
  show ?thesis
  proof (cases "0 < row (player w)")
    case r: True
    show ?thesis by (simp add: update_cases [OF True r] Let_def)
  next
    case False
    then show ?thesis
      using True by (simp add: Scoreboard_update_def checkWinAndCollision_def Let_def)
  qed
qed

lemma stoppedInv_running: "running (scoreboard w) \<Longrightarrow> stoppedInv w"
  by (simp add: stoppedInv_def)

lemma stoppedInv_clearInterval: "stoppedInv w \<Longrightarrow> stoppedInv (clearInterval i w)"
  using countdownPending_clearInterval [of i w]
  by (auto simp add: stoppedInv_def gameIsOver_def)

lemma stoppedInv_countdownTick: "stoppedInv w \<Longrightarrow> stoppedInv (countdownTick i w)"
proof (cases "currentTime (scoreboard w) = 0")
  case True
  then have "gameIsOver (handleGameOver (clearInterval i w))"
    by (intro gameIsOver_handleGameOver) simp
  then show ?thesis using True by (simp add: countdownTick_def stoppedInv_def)
next
  case False
  assume "stoppedInv w"
  with False show ?thesis
    by (auto simp add: countdownTick_def stoppedInv_def countdownPending_def gameIsOver_def)
qed

lemma stoppedInv_bonusSpawnTick: "stoppedInv w \<Longrightarrow> stoppedInv (bonusSpawnTick rnd i w)"
  by (auto simp add: bonusSpawnTick_def Let_def stoppedInv_def countdownPending_def
        gameIsOver_def)

lemma stoppedInv_bonusRemove: "stoppedInv w \<Longrightarrow> stoppedInv (bonusRemove w)"
  by (auto simp add: bonusRemove_def stoppedInv_def countdownPending_def gameIsOver_def)

lemma stoppedInv_endWin: "stoppedInv w \<Longrightarrow> stoppedInv (endWin w)"
  by (auto simp add: endWin_def Let_def stoppedInv_def countdownPending_def gameIsOver_def)

lemma stoppedInv_endLose: "stoppedInv w \<Longrightarrow> stoppedInv (endLose w)"
  by (auto simp add: endLose_def Let_def stoppedInv_def countdownPending_def gameIsOver_def)

lemma stoppedInv_endBonus: "stoppedInv w \<Longrightarrow> stoppedInv (endBonus w)"
  by (auto simp add: endBonus_def stoppedInv_def countdownPending_def gameIsOver_def)

lemma stoppedInv_runCallback: "stoppedInv w \<Longrightarrow> stoppedInv (runCallback rnd i f w)"
  by (cases f)
    (simp_all add: stoppedInv_countdownTick stoppedInv_bonusSpawnTick stoppedInv_bonusRemove
       stoppedInv_endWin stoppedInv_endLose stoppedInv_endBonus)

lemma stoppedInv_fire: "stoppedInv w \<Longrightarrow> stoppedInv (fire rnd i w)"
  by (simp add: fire_def stoppedInv_runCallback stoppedInv_clearInterval split: option.splits)

lemma stoppedInv_reachable: "reachable w \<Longrightarrow> stoppedInv w"
proof (induction rule: reachable.induct)
  case script
  show ?case by (simp add: stoppedInv_def countdownPending_def initialWorld_def)
next
  case (play w rnd)
  show ?case by (rule stoppedInv_running) (simp add: startGame_fields)
next
  case (keyup w inputKey)
  show ?case
  proof (cases "movingEnabled (player w)")
    case True
    with keyup.IH gameIsOver_moves [of w] show ?thesis
      by (auto simp add: stoppedInv_def countdownPending_def)
  next
    case False
    then have "handleInput inputKey (player w) = player w" by (simp add: handleInput_def)
    with keyup.IH show ?thesis by simp
  qed
next
  case (enemyUpdate w j rnd dt)
  then show ?case
    by (auto simp add: stoppedInv_def countdownPending_def gameIsOver_def)
next
  case (playerUpdate w)
  show ?case
  proof (cases "\<not> running (scoreboard w) \<and> countdownPending w")
    case True
    with playerUpdate.IH have "gameIsOver w" by (simp add: stoppedInv_def)
    then have "player w = Player_reset (enableMoves False (player w))"
      by (simp add: gameIsOver_def)
    then have "Player_update (player w) = player w"
      using Player_update_reset [of "enableMoves False (player w)"] by simp
    with playerUpdate.IH show ?thesis by simp
  next
    case False
    then show ?thesis by (auto simp add: stoppedInv_def countdownPending_def)
  qed
next
  case (scoreboardUpdate w)
  show ?case
  proof (cases "running (scoreboard w)")
    case True
    then show ?thesis by (intro stoppedInv_running) (simp add: running_update)
  next
    case False
    then have "Scoreboard_update w = w"
      by (simp add: Scoreboard_update_def checkWinAndCollision_def)
    with scoreboardUpdate.IH show ?thesis by simp
  qed
next
  case (timer w rnd i)
  then show ?case by (simp add: stoppedInv_fire)
qed

lemma timers_update:
  "set (timers (Scoreboard_update w)) \<subseteq>
     set (timers w) \<union> {t. cb t \<noteq> CountdownTick}"
proof (cases "running (scoreboard w)")
  case False
  then show ?thesis by (simp add: Scoreboard_update_def checkWinAndCollision_def)
next
  case True
  show ?thesis
  proof (cases "0 < row (player w)")
    case r: True
    show ?thesis
      by (auto simp add: update_cases [OF True r] Let_def endLoseState_def endBonusState_def)
  next
    case False
    then show ?thesis
      using True
      by (auto simp add: Scoreboard_update_def checkWinAndCollision_def Let_def endWinState_def)
  qed
qed

lemma timers_runCallback:
  "set (timers (runCallback rnd i f w)) \<subseteq> set (timers w) \<union> {t. cb t \<noteq> CountdownTick}"
  by (cases f)
    (auto simp add: countdownTick_def bonusSpawnTick_def bonusRemove_def endWin_def endLose_def
       endBonus_def Let_def handleGameOver_fields)

lemma countdownsRepeat_reachable: "reachable w \<Longrightarrow> countdownsRepeat w"
proof (induction rule: reachable.induct)
  case script
  show ?case by (simp add: countdownsRepeat_def initialWorld_def)
next
  case (play w rnd)
  then show ?case by (auto simp add: countdownsRepeat_def startGame_fields)
next
  case (keyup w inputKey)
  then show ?case by (simp add: countdownsRepeat_def)
next
  case (enemyUpdate w j rnd dt)
  then show ?case by (simp add: countdownsRepeat_def)
next
  case (playerUpdate w)
  then show ?case by (simp add: countdownsRepeat_def)
next
  case (scoreboardUpdate w)
  then show ?case using timers_update [of w] by (auto simp add: countdownsRepeat_def)
next
  case (timer w rnd i)
  show ?case
  proof (cases "find (\<lambda>t. tid t = i) (timers w)")
    case None
    with timer.IH show ?thesis by (simp add: fire_def)
  next
    case (Some t)
    define w0 where "w0 = (if repeating t then w else clearInterval i w)"
    have "set (timers w0) \<subseteq> set (timers w)" by (auto simp add: w0_def)
    with timers_runCallback [of rnd i "cb t" w0]
    have "set (timers (fire rnd i w)) \<subseteq> set (timers w) \<union> {t. cb t \<noteq> CountdownTick}"
      using Some by (auto simp add: fire_def w0_def)
    with timer.IH show ?thesis by (auto simp add: countdownsRepeat_def)
  qed
qed

lemma reachable_fires: "reachable w \<Longrightarrow> reachable (fires n rnd i w)"
  by (induction n arbitrary: w) (simp_all add: reachable.timer)

lemma find_in_timers: "find (\<lambda>t. tid t = i) ts = Some t \<Longrightarrow> t \<in> set ts"
  by (auto simp add: find_Some_iff)

lemma startGame_nextTimerId: "nextTimerId (startGame rnd w) = nextTimerId w + 2"
  by (simp add: startGame_def Let_def countdown_def manageBonusItems_def setInterval_def)

lemma startGame_twice_timers:
  "timers (startGame rnd (startGame rnd initialWorld)) =
     [\<lparr>tid = 0, cb = CountdownTick, delay = 1000, repeating = True\<rparr>,
      \<lparr>tid = 1, cb = BonusSpawnTick, delay = 6000, repeating = True\<rparr>,
      \<lparr>tid = 2, cb = CountdownTick, delay = 1000, repeating = True\<rparr>,
      \<lparr>tid = 3, cb = BonusSpawnTick, delay = 6000, repeating = True\<rparr>]"
  by (simp add: startGame_fields startGame_nextTimerId initialWorld_def)

lemma startGame_twice_scoreboard:
  "scoreboard (startGame rnd (startGame rnd initialWorld)) =
     \<lparr>score = 0, won = False, lost = False, bonus = False,
      currentTime = 60, running = True, gameOver = False\<rparr>"
  by (simp add: startGame_fields initialWorld_def newScoreboard_def GAME_TIME_def)

text \<open>
  Claim C9. In every state that the game can reach, a tick of a pending countdown interval
  does the following. If the game is not running, the tick cancels its interval and changes
  nothing else. If the game is running and time is left, the tick decrements the remaining
  time by one and the interval stays pending. If the game is running and the remaining time
  is 0, the tick cancels its interval and calls \<open>handleGameOver\<close>. So from a running state
  with \<open>n\<close> seconds left, \<open>n\<close> ticks count down to 0, the next tick stops the countdown and
  calls \<open>handleGameOver\<close>, and the interval never fires again: it calls \<open>handleGameOver\<close>
  exactly once. (The callback tests \<open>currentTime === 0\<close>; whenever the game is stopped
  while a countdown is pending the clock is at 0 and the game is over, so that the test
  agrees with a test of the running flag.)
\<close>

theorem countdown_tick:
  assumes "reachable w" "find (\<lambda>t. tid t = i) (timers w) = Some t" "cb t = CountdownTick"
  shows "(\<not> running (scoreboard w) \<longrightarrow>
            fire rnd i w = clearInterval i w \<and> \<not> pending i (fire rnd i w))
         \<and> (running (scoreboard w) \<and> currentTime (scoreboard w) \<noteq> 0 \<longrightarrow>
            fire rnd i w =
              w\<lparr>scoreboard := (scoreboard w)\<lparr>currentTime := currentTime (scoreboard w) - 1\<rparr>\<rparr>
            \<and> pending i (fire rnd i w))
         \<and> (running (scoreboard w) \<and> currentTime (scoreboard w) = 0 \<longrightarrow>
            fire rnd i w = handleGameOver (clearInterval i w)
            \<and> \<not> pending i (fire rnd i w))
         \<and> (running (scoreboard w) \<and> currentTime (scoreboard w) = int n \<longrightarrow>
            (\<forall>k \<le> n. fires k rnd i w = w\<lparr>scoreboard := (scoreboard w)\<lparr>currentTime := int n - int k\<rparr>\<rparr>
                     \<and> pending i (fires k rnd i w))
            \<and> fires (n + 1) rnd i w =
                handleGameOver (clearInterval i (w\<lparr>scoreboard := (scoreboard w)\<lparr>currentTime := 0\<rparr>\<rparr>))
            \<and> (\<forall>m. fires (n + 1 + m) rnd i w = fires (n + 1) rnd i w))"
proof -
  have tin: "t \<in> set (timers w)" by (rule find_in_timers [OF assms(2)])
  have rep: "repeating t"
    using countdownsRepeat_reachable [OF assms(1)] tin assms(3) by (simp add: countdownsRepeat_def)
  note tick = fire_countdown [OF assms(2,3) rep]
  have pw: "pending i w" using assms(2) by (simp add: pending_def)
  have S: "\<not> running (scoreboard w) \<Longrightarrow>
      fire rnd i w = clearInterval i w \<and> \<not> pending i (fire rnd i w)"
  proof -
    assume nr: "\<not> running (scoreboard w)"
    have "countdownPending w" using tin assms(3) by (auto simp add: countdownPending_def)
    with stoppedInv_reachable [OF assms(1)] nr have over: "gameIsOver w"
      by (simp add: stoppedInv_def)
    then have z: "currentTime (scoreboard w) = 0" by (simp add: gameIsOver_def)
    have "gameIsOver (clearInterval i w)" using over by (simp add: gameIsOver_def)
    then have "handleGameOver (clearInterval i w) = clearInterval i w"
      using nr by (intro handleGameOver_noop) simp_all
    then have "fire rnd i w = clearInterval i w"
      using tick countdownTick_zero [OF z, of i] by simp
    then show ?thesis by (simp add: not_pending_clearInterval)
  qed
  have A: "currentTime (scoreboard w) \<noteq> 0 \<Longrightarrow>
      fire rnd i w = w\<lparr>scoreboard := (scoreboard w)\<lparr>currentTime := currentTime (scoreboard w) - 1\<rparr>\<rparr>
      \<and> pending i (fire rnd i w)"
    using tick countdownTick_nonzero [of w i] pw by (simp add: pending_def)
  have B: "currentTime (scoreboard w) = 0 \<Longrightarrow>
      fire rnd i w = handleGameOver (clearInterval i w) \<and> \<not> pending i (fire rnd i w)"
    using tick countdownTick_zero [of w i]
    by (simp add: pending_handleGameOver not_pending_clearInterval)
  have C: "currentTime (scoreboard w) = int n \<Longrightarrow>
      (\<forall>k \<le> n. fires k rnd i w = w\<lparr>scoreboard := (scoreboard w)\<lparr>currentTime := int n - int k\<rparr>\<rparr>
               \<and> pending i (fires k rnd i w))
      \<and> fires (n + 1) rnd i w =
          handleGameOver (clearInterval i (w\<lparr>scoreboard := (scoreboard w)\<lparr>currentTime := 0\<rparr>\<rparr>))
      \<and> (\<forall>m. fires (n + 1 + m) rnd i w = fires (n + 1) rnd i w)"
  proof -
    assume ct: "currentTime (scoreboard w) = int n"
    let ?w0 = "w\<lparr>scoreboard := (scoreboard w)\<lparr>currentTime := 0\<rparr>\<rparr>"
    have run: "\<And>k. k \<le> n \<Longrightarrow>
        fires k rnd i w = w\<lparr>scoreboard := (scoreboard w)\<lparr>currentTime := int n - int k\<rparr>\<rparr>"
      by (rule countdown_fires [OF assms(2,3) rep ct])
    have pend: "\<And>k. k \<le> n \<Longrightarrow> pending i (fires k rnd i w)"
      using run pw by (simp add: pending_def)
    have atn: "fires n rnd i w = ?w0" using run [of n] by simp
    have t0: "find (\<lambda>t. tid t = i) (timers ?w0) = Some t" using assms(2) by simp
    have last: "fire rnd i ?w0 = handleGameOver (clearInterval i ?w0)"
      using fire_countdown [OF t0 assms(3) rep] countdownTick_zero [of ?w0 i] by simp
    have n1: "fires (n + 1) rnd i w = handleGameOver (clearInterval i ?w0)"
      using fires_add [of n 1 rnd i w] atn last by simp
    have np: "\<not> pending i (fires (n + 1) rnd i w)"
      unfolding n1 by (simp add: pending_handleGameOver not_pending_clearInterval)
    have after: "\<And>m. fires (n + 1 + m) rnd i w = fires (n + 1) rnd i w"
      using fires_add [of "n + 1" _ rnd i w] fires_not_pending [OF np] by simp
    from run pend n1 after show ?thesis by blast
  qed
  from S A B C show ?thesis by blast
qed

theorem countdown_tick_witness:
  "reachable (startGame (\<lambda>n. 1 / 2) (startGame (\<lambda>n. 1 / 2) initialWorld))
   \<and> currentTime (scoreboard (fire (\<lambda>n. 1 / 2) 0
        (startGame (\<lambda>n. 1 / 2) (startGame (\<lambda>n. 1 / 2) initialWorld)))) = 59
   \<and> pending 0 (fires 60 (\<lambda>n. 1 / 2) 0
        (startGame (\<lambda>n. 1 / 2) (startGame (\<lambda>n. 1 / 2) initialWorld)))
   \<and> currentTime (scoreboard (fires 60 (\<lambda>n. 1 / 2) 0
        (startGame (\<lambda>n. 1 / 2) (startGame (\<lambda>n. 1 / 2) initialWorld)))) = 0
   \<and> \<not> pending 0 (fires 61 (\<lambda>n. 1 / 2) 0
        (startGame (\<lambda>n. 1 / 2) (startGame (\<lambda>n. 1 / 2) initialWorld)))
   \<and> gameOver (scoreboard (fires 61 (\<lambda>n. 1 / 2) 0
        (startGame (\<lambda>n. 1 / 2) (startGame (\<lambda>n. 1 / 2) initialWorld))))
   \<and> \<not> running (scoreboard (fires 61 (\<lambda>n. 1 / 2) 0
        (startGame (\<lambda>n. 1 / 2) (startGame (\<lambda>n. 1 / 2) initialWorld))))
   \<and> pending 2 (fires 61 (\<lambda>n. 1 / 2) 0
        (startGame (\<lambda>n. 1 / 2) (startGame (\<lambda>n. 1 / 2) initialWorld)))
   \<and> fire (\<lambda>n. 1 / 2) 2 (fires 61 (\<lambda>n. 1 / 2) 0
        (startGame (\<lambda>n. 1 / 2) (startGame (\<lambda>n. 1 / 2) initialWorld)))
      = clearInterval 2 (fires 61 (\<lambda>n. 1 / 2) 0
        (startGame (\<lambda>n. 1 / 2) (startGame (\<lambda>n. 1 / 2) initialWorld)))"
proof -
  let ?r = "\<lambda>n :: nat. 1 / 2 :: real"
  let ?W = "startGame ?r (startGame ?r initialWorld)"
  let ?c0 = "\<lparr>tid = 0, cb = CountdownTick, delay = 1000, repeating = True\<rparr>"
  let ?c2 = "\<lparr>tid = 2, cb = CountdownTick, delay = 1000, repeating = True\<rparr>"
  have rW: "reachable ?W" by (intro reachable.play reachable.script)
  have t0: "find (\<lambda>t. tid t = 0) (timers ?W) = Some ?c0" by (simp add: startGame_twice_timers)
  have cbs: "cb ?c0 = CountdownTick" "cb ?c2 = CountdownTick" by simp_all
  have run: "running (scoreboard ?W)" by (simp add: startGame_twice_scoreboard)
  have c: "currentTime (scoreboard ?W) = int 60" by (simp add: startGame_twice_scoreboard)
  have c': "currentTime (scoreboard ?W) \<noteq> 0" by (simp add: startGame_twice_scoreboard)
  note T = countdown_tick [OF rW t0 cbs(1), where n = 60 and rnd = ?r]
  from T run c' have "fire ?r 0 ?W =
      ?W\<lparr>scoreboard := (scoreboard ?W)\<lparr>currentTime := currentTime (scoreboard ?W) - 1\<rparr>\<rparr>"
    by blast
  then have one: "currentTime (scoreboard (fire ?r 0 ?W)) = 59"
    by (simp add: startGame_twice_scoreboard)
  from T run c have all: "\<forall>k \<le> 60. fires k ?r 0 ?W =
        ?W\<lparr>scoreboard := (scoreboard ?W)\<lparr>currentTime := int 60 - int k\<rparr>\<rparr>
        \<and> pending 0 (fires k ?r 0 ?W)"
    and last: "fires (60 + 1) ?r 0 ?W =
        handleGameOver (clearInterval 0 (?W\<lparr>scoreboard := (scoreboard ?W)\<lparr>currentTime := 0\<rparr>\<rparr>))"
    by blast+
  from all have eq60: "fires 60 ?r 0 ?W =
        ?W\<lparr>scoreboard := (scoreboard ?W)\<lparr>currentTime := int 60 - int 60\<rparr>\<rparr>"
    and p60: "pending 0 (fires 60 ?r 0 ?W)"
    by blast+
  from eq60 have c60: "currentTime (scoreboard (fires 60 ?r 0 ?W)) = 0" by simp
  have e61: "(60 + 1 :: nat) = 61" by simp
  note last = last [unfolded e61]
  let ?V = "fires 61 ?r 0 ?W"
  have np: "\<not> pending 0 ?V"
    unfolding last by (simp add: pending_handleGameOver not_pending_clearInterval)
  have go: "gameOver (scoreboard ?V)" "\<not> running (scoreboard ?V)"
    unfolding last by (simp_all add: handleGameOver_fields)
  have tV: "find (\<lambda>t. tid t = 2) (timers ?V) = Some ?c2"
    unfolding last by (simp add: handleGameOver_fields startGame_twice_timers)
  have p2: "pending 2 ?V" using tV by (simp add: pending_def)
  have rV: "reachable ?V" by (rule reachable_fires [OF rW])
  from countdown_tick [OF rV tV cbs(2), where n = 0 and rnd = ?r] go(2)
  have stop: "fire ?r 2 ?V = clearInterval 2 ?V" by blast
  from rW one p60 c60 np go p2 stop show ?thesis by simp
qed

end
